theory Spec2Isabelle
  imports Main "HOL-Library.Word"
begin

section \<open>Data model\<close>

text \<open>
  The chat backend keeps users, channels, channel memberships and messages in a document
  store (Mongoose models) and the presence state of the streaming transport in three
  process-wide maps.  Identifiers are ObjectIds in canonical form, timestamps are the
  millisecond time values of JavaScript dates, and message bodies are JavaScript strings,
  that is sequences of UTF-16 code units.
\<close>

type_synonym object_id = nat
type_synonym timestamp = int
type_synonym code_unit = "16 word"
type_synonym js_string = "code_unit list"

text \<open>An ASCII literal as a JavaScript string.\<close>

definition js :: "string \<Rightarrow> js_string" where
  "js s = map (\<lambda>c. of_nat (of_char c)) s"

subsection \<open>models/Message.js\<close>

text \<open>
  The fields of \<open>messageSchema\<close>; \<open>attachments\<close> and \<open>metadata\<close> are never read by
  the operations below and are left out.
\<close>

record message =
  msg_id :: object_id
  channel_id :: object_id
  user_id :: object_id
  content :: js_string
  message_type :: string
  is_flagged :: bool
  flag_reason :: "string option"
  flagged_by :: "object_id option"
  flagged_at :: "timestamp option"
  is_deleted :: bool
  deleted_by :: "object_id option"
  deleted_at :: "timestamp option"
  reply_to :: "object_id option"
  created_at :: timestamp
  updated_at :: timestamp

subsection \<open>models/Channel.js, models/ChannelMember.js, models/User.js\<close>

text \<open>
  Of a channel only \<open>_id\<close> and \<open>is_private\<close> are read.  The \<open>role\<close> of a membership
  is one of the strings \<open>member\<close>, \<open>moderator\<close>, \<open>admin\<close> of the schema's \<open>enum\<close>, and
  the \<open>role\<close> of a user one of \<open>user\<close>, \<open>moderator\<close>, \<open>admin\<close>; callers of
  \<open>hasRole\<close> pass \<open>requiredRole\<close> as one of the three membership roles.
\<close>

record channel =
  ch_id :: object_id
  is_private :: bool

datatype role = Member | Moderator | Admin

record channel_member =
  member_channel_id :: object_id
  member_user_id :: object_id
  member_role :: role
  is_active :: bool

datatype user_role = RoleUser | RoleModerator | RoleAdmin

record user =
  usr_id :: object_id
  usr_role :: user_role

subsection \<open>The document store\<close>

record db =
  channels :: "channel list"
  members :: "channel_member list"
  messages :: "message list"
  users :: "user list"

text \<open>
  Every \<open>throw new Error(...)\<close> of services/messageService.js and every error answer of
  the message routes is a constructor; the comment gives the text.  \<open>ValidationError\<close> is what \<open>save()\<close> rejects with when a
  schema validator fails, \<open>QueryError\<close> what the store rejects a negative skip with, and
  \<open>TypeError\<close> the runtime's error on reading a property of \<open>null\<close>.
\<close>

datatype error =
    ChannelNotFound       \<comment> \<open>Channel not found\<close>
  | AccessDenied          \<comment> \<open>Access denied. You are not a member of this channel.\<close>
  | InvalidReplyMessage   \<comment> \<open>Invalid reply message\<close>
  | MessageNotFound       \<comment> \<open>Message not found\<close>
  | NotAuthor             \<comment> \<open>You can only edit your own messages\<close>
  | EditWindowExpired     \<comment> \<open>Messages can only be edited within 5 minutes of posting\<close>
  | DeleteForbidden       \<comment> \<open>You can only delete your own messages or need moderator privileges\<close>
  | NotOwnMessage         \<comment> \<open>You can only delete your own messages\<close>
  | AlreadyFlagged        \<comment> \<open>Message is already flagged\<close>
  | NotFlagged            \<comment> \<open>Message is not flagged\<close>
  | NotDeleted            \<comment> \<open>Message is not deleted\<close>
  | SearchQueryRequired   \<comment> \<open>Search query is required\<close>
  | ValidationError
  | QueryError
  | TypeError

type_synonym 'a outcome = "(error + 'a) \<times> db"

definition findById :: "message list \<Rightarrow> object_id \<Rightarrow> message option" where
  "findById ms i = find (\<lambda>m. msg_id m = i) ms"

definition findChannelById :: "channel list \<Rightarrow> object_id \<Rightarrow> channel option" where
  "findChannelById cs i = find (\<lambda>c. ch_id c = i) cs"

definition findUserById :: "user list \<Rightarrow> object_id \<Rightarrow> user option" where
  "findUserById us i = find (\<lambda>u. usr_id u = i) us"

subsection \<open>Schema setters and validators of the message body\<close>

text \<open>
  \<open>content\<close> is declared \<open>required\<close>, \<open>trim\<close> and \<open>maxlength: 2000\<close>.  The setter trims
  on assignment with \<open>String.prototype.trim\<close>, which strips the white space and line
  terminator code points of ECMAScript at both ends.
\<close>

definition isLineTerminator :: "code_unit \<Rightarrow> bool" where
  "isLineTerminator c \<longleftrightarrow> c = 0x000A \<or> c = 0x000D \<or> c = 0x2028 \<or> c = 0x2029"

definition isWhiteSpace :: "code_unit \<Rightarrow> bool" where
  "isWhiteSpace c \<longleftrightarrow>
     c = 0x0009 \<or> c = 0x000B \<or> c = 0x000C \<or> c = 0x0020 \<or> c = 0x00A0 \<or> c = 0x1680 \<or>
     (0x2000 \<le> c \<and> c \<le> 0x200A) \<or> c = 0x202F \<or> c = 0x205F \<or> c = 0x3000 \<or> c = 0xFEFF"

definition trim :: "js_string \<Rightarrow> js_string" where
  "trim s =
     (let strip = dropWhile (\<lambda>c. isWhiteSpace c \<or> isLineTerminator c)
      in rev (strip (rev (strip s))))"

definition validate_content :: "js_string \<Rightarrow> bool" where
  "validate_content c \<longleftrightarrow> c \<noteq> [] \<and> length c \<le> 2000"

definition message_types :: "string list" where
  "message_types = [''text'', ''image'', ''file'', ''system'']"

definition flag_reasons :: "string list" where
  "flag_reasons = [''inappropriate'', ''spam'', ''harassment'', ''other'']"

text \<open>
  \<open>save()\<close> of a loaded document writes it back under its \<open>_id\<close>; the schema's
  \<open>timestamps\<close> option stamps \<open>updated_at\<close>.  \<open>save()\<close> of a new document inserts it.
\<close>

definition save :: "db \<Rightarrow> timestamp \<Rightarrow> message \<Rightarrow> message outcome" where
  "save d now m =
     (let m' = m\<lparr>updated_at := now\<rparr>
      in (Inr m',
          d\<lparr>messages :=
               (if findById (messages d) (msg_id m) = None then messages d @ [m']
                else map (\<lambda>x. if msg_id x = msg_id m then m' else x) (messages d))\<rparr>))"

subsection \<open>Statics of models/ChannelMember.js\<close>

text \<open>
  \<open>findOne({channel_id, user_id, is_active: true})\<close>: the first membership document that
  matches all three fields.
\<close>

definition findOneActive ::
  "channel_member list \<Rightarrow> object_id \<Rightarrow> object_id \<Rightarrow> channel_member option" where
  "findOneActive ms channelId userId =
     find (\<lambda>m. member_channel_id m = channelId \<and> member_user_id m = userId \<and> is_active m) ms"

definition isMember :: "channel_member list \<Rightarrow> object_id \<Rightarrow> object_id \<Rightarrow> bool" where
  "isMember ms channelId userId \<longleftrightarrow> findOneActive ms channelId userId \<noteq> None"

definition roleHierarchy :: "role \<Rightarrow> nat" where
  "roleHierarchy r = (case r of Member \<Rightarrow> 1 | Moderator \<Rightarrow> 2 | Admin \<Rightarrow> 3)"

definition hasRole :: "channel_member list \<Rightarrow> object_id \<Rightarrow> object_id \<Rightarrow> role \<Rightarrow> bool" where
  "hasRole ms channelId userId requiredRole =
     (case findOneActive ms channelId userId of
        None \<Rightarrow> False
      | Some member \<Rightarrow> roleHierarchy (member_role member) \<ge> roleHierarchy requiredRole)"

text \<open>
  The schema's compound unique index on \<open>(channel_id, user_id)\<close>: no two membership
  documents of one user in one channel.
\<close>

definition unique_membership :: "channel_member list \<Rightarrow> bool" where
  "unique_membership ms \<longleftrightarrow> distinct (map (\<lambda>m. (member_channel_id m, member_user_id m)) ms)"

text \<open>
  The order of channel roles as the specification words it: member below moderator below
  admin.
\<close>

fun role_at_least_spec :: "role \<Rightarrow> role \<Rightarrow> bool" where
  "role_at_least_spec Admin _ = True"
| "role_at_least_spec Moderator Admin = False"
| "role_at_least_spec Moderator _ = True"
| "role_at_least_spec Member Member = True"
| "role_at_least_spec Member _ = False"

subsection \<open>Methods of models/Message.js\<close>

text \<open>
  Each method assigns its fields and saves.  Of the fields assigned here only
  \<open>flag_reason\<close> has a validator, the schema's \<open>enum\<close> of reasons, which \<open>save()\<close>
  runs before it writes.
\<close>

definition flag :: "db \<Rightarrow> timestamp \<Rightarrow> message \<Rightarrow> string \<Rightarrow> object_id \<Rightarrow> message outcome" where
  "flag d now this reason flaggedBy =
     (let m = this\<lparr>is_flagged := True, flag_reason := Some reason,
                    flagged_by := Some flaggedBy, flagged_at := Some now\<rparr>
      in if reason \<in> set flag_reasons then save d now m else (Inl ValidationError, d))"


definition softDelete :: "db \<Rightarrow> timestamp \<Rightarrow> message \<Rightarrow> object_id \<Rightarrow> message outcome" where
  "softDelete d now this deletedBy =
     save d now (this\<lparr>is_deleted := True, deleted_by := Some deletedBy,
                      deleted_at := Some now\<rparr>)"

definition restore :: "db \<Rightarrow> timestamp \<Rightarrow> message \<Rightarrow> message outcome" where
  "restore d now this =
     save d now (this\<lparr>is_deleted := False, deleted_by := None, deleted_at := None\<rparr>)"

section \<open>services/messageService.js\<close>

subsection \<open>sendMessage\<close>

text \<open>The driver gives a new document an ObjectId no stored document has.\<close>

definition new_object_id :: "message list \<Rightarrow> object_id" where
  "new_object_id ms = Suc (fold max (map msg_id ms) 0)"

text \<open>
  What a caller passes as \<open>replyTo\<close>: nothing (\<open>undefined\<close> or \<open>null\<close>), the empty
  string, or the id of a message.  The test \<open>if (replyTo)\<close> skips the first two.  The
  document is built with \<open>reply_to: replyTo\<close>: nothing becomes the default \<open>null\<close>, and
  the empty string fails the cast to an ObjectId, so that \<open>save()\<close> rejects the document.
  \<open>messageType\<close> defaults to \<open>text\<close>.
\<close>

datatype reply_arg = NoReply | EmptyString | ReplyId object_id

definition reply_to_cast :: "reply_arg \<Rightarrow> object_id option" where
  "reply_to_cast r = (case r of ReplyId i \<Rightarrow> Some i | _ \<Rightarrow> None)"

definition sendMessage ::
  "db \<Rightarrow> timestamp \<Rightarrow> object_id \<Rightarrow> object_id \<Rightarrow> js_string \<Rightarrow> reply_arg \<Rightarrow> string option
     \<Rightarrow> message outcome" where
  "sendMessage d now channelId userId content' replyTo messageType =
     (case findChannelById (channels d) channelId of
        None \<Rightarrow> (Inl ChannelNotFound, d)
      | Some channel \<Rightarrow>
          if is_private channel \<and> \<not> isMember (members d) channelId userId
          then (Inl AccessDenied, d)
          else if (case replyTo of
                     ReplyId r \<Rightarrow>
                       (case findById (messages d) r of
                          None \<Rightarrow> True
                        | Some replyMessage \<Rightarrow> channel_id replyMessage \<noteq> channelId)
                   | _ \<Rightarrow> False)
          then (Inl InvalidReplyMessage, d)
          else
            let message =
                  \<lparr>msg_id = new_object_id (messages d), channel_id = channelId,
                   user_id = userId, content = trim content',
                   message_type = (case messageType of None \<Rightarrow> ''text'' | Some t \<Rightarrow> t),
                   is_flagged = False, flag_reason = None, flagged_by = None,
                   flagged_at = None, is_deleted = False, deleted_by = None,
                   deleted_at = None, reply_to = reply_to_cast replyTo, created_at = now,
                   updated_at = now\<rparr>
            in if validate_content (content message)
                    \<and> message_type message \<in> set message_types
                    \<and> replyTo \<noteq> EmptyString
               then save d now message
               else (Inl ValidationError, d))"

subsection \<open>deleteMessage and restoreMessage\<close>

text \<open>
  \<open>populate('channel_id')\<close> leaves \<open>message.channel_id\<close> null when the channel document
  is gone; \<open>isModerator\<close> is the constant \<open>false\<close> of the source.
\<close>

definition deleteMessage :: "db \<Rightarrow> timestamp \<Rightarrow> object_id \<Rightarrow> object_id \<Rightarrow> bool outcome" where
  "deleteMessage d now messageId userId =
     (case findById (messages d) messageId of
        None \<Rightarrow> (Inl MessageNotFound, d)
      | Some message \<Rightarrow>
          let isAuthor = (user_id message = userId);
              isModerator = False;
              hasChannelModeratorRole =
                (findChannelById (channels d) (channel_id message) \<noteq> None
                 \<and> hasRole (members d) (channel_id message) userId Moderator)
          in if \<not> isAuthor \<and> \<not> isModerator \<and> \<not> hasChannelModeratorRole
             then (Inl DeleteForbidden, d)
             else (Inr True, snd (softDelete d now message userId)))"

definition restoreMessage :: "db \<Rightarrow> timestamp \<Rightarrow> object_id \<Rightarrow> object_id \<Rightarrow> message outcome" where
  "restoreMessage d now messageId userId =
     (case findById (messages d) messageId of
        None \<Rightarrow> (Inl MessageNotFound, d)
      | Some message \<Rightarrow>
          if \<not> is_deleted message then (Inl NotDeleted, d)
          else restore d now message)"

subsection \<open>flagMessage and unflagMessage\<close>

definition flagMessage ::
  "db \<Rightarrow> timestamp \<Rightarrow> object_id \<Rightarrow> string \<Rightarrow> object_id \<Rightarrow> message outcome" where
  "flagMessage d now messageId reason userId =
     (case findById (messages d) messageId of
        None \<Rightarrow> (Inl MessageNotFound, d)
      | Some message \<Rightarrow>
          if is_flagged message then (Inl AlreadyFlagged, d)
          else flag d now message reason userId)"


subsection \<open>updateMessage\<close>

definition updateMessage ::
  "db \<Rightarrow> timestamp \<Rightarrow> object_id \<Rightarrow> js_string \<Rightarrow> object_id \<Rightarrow> message outcome" where
  "updateMessage d now messageId newContent userId =
     (case findById (messages d) messageId of
        None \<Rightarrow> (Inl MessageNotFound, d)
      | Some message \<Rightarrow>
          if user_id message \<noteq> userId then (Inl NotAuthor, d)
          else
            let fiveMinutesAgo = now - 5 * 60 * 1000
            in if created_at message < fiveMinutesAgo then (Inl EditWindowExpired, d)
               else
                 let edited = message\<lparr>content := trim newContent\<rparr>
                 in if validate_content (content edited) then save d now edited
                    else (Inl ValidationError, d))"

subsection \<open>getChannelMessages, searchMessages and getMessageById\<close>

text \<open>What \<open>getPublicInfo\<close> projects out of a message document.\<close>

record public_info =
  pub_id :: object_id
  pub_channel_id :: object_id
  pub_user_id :: object_id
  pub_content :: js_string
  pub_message_type :: string
  pub_is_flagged :: bool
  pub_flag_reason :: "string option"
  pub_is_deleted :: bool
  pub_reply_to :: "object_id option"
  pub_created_at :: timestamp
  pub_updated_at :: timestamp

definition getPublicInfo :: "message \<Rightarrow> public_info" where
  "getPublicInfo this =
     \<lparr>pub_id = msg_id this, pub_channel_id = channel_id this, pub_user_id = user_id this,
      pub_content = content this, pub_message_type = message_type this,
      pub_is_flagged = is_flagged this, pub_flag_reason = flag_reason this,
      pub_is_deleted = is_deleted this, pub_reply_to = reply_to this,
      pub_created_at = created_at this, pub_updated_at = updated_at this\<rparr>"

text \<open>
  The query chain \<open>find(filter).sort({created_at: -1}).skip(skip).limit(limit)\<close>.  The
  store leaves the order of equal keys open; a limit of zero means no limit.
\<close>

definition find_sorted_page ::
  "(message \<Rightarrow> bool) \<Rightarrow> nat \<Rightarrow> nat \<Rightarrow> message list \<Rightarrow> message list" where
  "find_sorted_page matching skip limit ms =
     (let sorted_desc = rev (sort_key created_at (filter matching ms));
          skipped = drop skip sorted_desc
      in if limit = 0 then skipped else take limit skipped)"

text \<open>
  \<open>page\<close> and \<open>limit\<close> default to 1 and 50.  \<open>skip = (page - 1) * limit\<close> is negative
  for page 0 and a positive limit, which the store rejects.  Of the pagination object only
  \<open>total\<close> is kept.
\<close>

definition getChannelMessages ::
  "db \<Rightarrow> object_id \<Rightarrow> nat option \<Rightarrow> nat option \<Rightarrow> object_id
     \<Rightarrow> error + (public_info list \<times> nat)" where
  "getChannelMessages d channelId page limit userId =
     (let page' = (case page of None \<Rightarrow> 1 | Some p \<Rightarrow> p);
          limit' = (case limit of None \<Rightarrow> 50 | Some l \<Rightarrow> l)
      in case findChannelById (channels d) channelId of
           None \<Rightarrow> Inl ChannelNotFound
         | Some channel \<Rightarrow>
             if is_private channel \<and> \<not> isMember (members d) channelId userId
             then Inl AccessDenied
             else if page' = 0 \<and> 0 < limit' then Inl QueryError
             else
               let matching = (\<lambda>m. channel_id m = channelId \<and> is_deleted m = False);
                   found = find_sorted_page matching ((page' - 1) * limit') limit' (messages d);
                   n_total = length (filter matching (messages d))
               in Inr (map getPublicInfo found, n_total))"

text \<open>
  The store's case-insensitive regular expression match of \<open>query\<close> against a body is
  the parameter \<open>regex\<close>.
\<close>

definition searchMessages ::
  "(js_string \<Rightarrow> js_string \<Rightarrow> bool) \<Rightarrow> db \<Rightarrow> object_id \<Rightarrow> js_string \<Rightarrow> nat option \<Rightarrow> nat option
     \<Rightarrow> object_id \<Rightarrow> error + (public_info list \<times> nat)" where
  "searchMessages regex d channelId query page limit userId =
     (let page' = (case page of None \<Rightarrow> 1 | Some p \<Rightarrow> p);
          limit' = (case limit of None \<Rightarrow> 50 | Some l \<Rightarrow> l)
      in if query = [] then Inl SearchQueryRequired
         else case findChannelById (channels d) channelId of
           None \<Rightarrow> Inl ChannelNotFound
         | Some channel \<Rightarrow>
             if is_private channel \<and> \<not> isMember (members d) channelId userId
             then Inl AccessDenied
             else if page' = 0 \<and> 0 < limit' then Inl QueryError
             else
               let matching = (\<lambda>m. channel_id m = channelId \<and> regex query (content m)
                                    \<and> is_deleted m = False);
                   found = find_sorted_page matching ((page' - 1) * limit') limit' (messages d);
                   n_total = length (filter matching (messages d))
               in Inr (map getPublicInfo found, n_total))"

text \<open>
  The static \<open>Message.getChannelMessages\<close> of the model, which the streaming handler
  \<open>get_message_history\<close> reads.
\<close>

definition Message_getChannelMessages ::
  "message list \<Rightarrow> object_id \<Rightarrow> nat \<Rightarrow> nat \<Rightarrow> error + message list" where
  "Message_getChannelMessages ms channelId page limit =
     (if page = 0 \<and> 0 < limit then Inl QueryError
      else Inr (find_sorted_page (\<lambda>m. channel_id m = channelId \<and> is_deleted m = False)
                  ((page - 1) * limit) limit ms))"

text \<open>
  \<open>getMessageById\<close> reads \<open>channel.is_private\<close> of a channel it did not check for
  null: a missing channel is a \<open>TypeError\<close>.
\<close>

definition getMessageById :: "db \<Rightarrow> object_id \<Rightarrow> object_id \<Rightarrow> error + message" where
  "getMessageById d messageId userId =
     (case findById (messages d) messageId of
        None \<Rightarrow> Inl MessageNotFound
      | Some message \<Rightarrow>
          (case findChannelById (channels d) (channel_id message) of
             None \<Rightarrow> Inl TypeError
           | Some channel \<Rightarrow>
               if is_private channel \<and> \<not> isMember (members d) (channel_id message) userId
               then Inl AccessDenied
               else Inr message))"

section \<open>routes/messages.js\<close>

text \<open>
  The message routes that the server mounts are inline handlers; they do not call the
  message service.  \<open>req.user\<close> is the user the authentication middleware attached to
  the request.  The middleware in front of the handlers (rate limit, request validation,
  content moderation) is not part of these two definitions.
\<close>

text \<open>\<open>DELETE /:id\<close>: the author and the site-wide moderators and admins may delete.\<close>

definition route_delete_message :: "db \<Rightarrow> timestamp \<Rightarrow> user \<Rightarrow> object_id \<Rightarrow> bool outcome" where
  "route_delete_message d now reqUser messageId =
     (case findById (messages d) messageId of
        None \<Rightarrow> (Inl MessageNotFound, d)
      | Some message \<Rightarrow>
          let canDelete = (user_id message = usr_id reqUser
                           \<or> usr_role reqUser = RoleModerator
                           \<or> usr_role reqUser = RoleAdmin)
          in if \<not> canDelete then (Inl NotOwnMessage, d)
             else (Inr True,
                   snd (save d now (message\<lparr>is_deleted := True,
                                            deleted_by := Some (usr_id reqUser),
                                            deleted_at := Some now\<rparr>))))"

text \<open>
  \<open>POST /channel/:id\<close>: an empty \<open>reply_to\<close> is turned into \<open>null\<close> first, and the
  sender must be a member whether the channel is private or not.
\<close>

definition route_send_message ::
  "db \<Rightarrow> timestamp \<Rightarrow> user \<Rightarrow> object_id \<Rightarrow> js_string \<Rightarrow> reply_arg \<Rightarrow> string option
     \<Rightarrow> message outcome" where
  "route_send_message d now reqUser channelId content' reply_to' message_type' =
     (let normalizedReplyTo = (if reply_to' = EmptyString then NoReply else reply_to')
      in case findChannelById (channels d) channelId of
           None \<Rightarrow> (Inl ChannelNotFound, d)
         | Some channel \<Rightarrow>
             if \<not> isMember (members d) channelId (usr_id reqUser) then (Inl AccessDenied, d)
             else if (case normalizedReplyTo of
                        ReplyId r \<Rightarrow>
                          (case findById (messages d) r of
                             None \<Rightarrow> True
                           | Some replyMessage \<Rightarrow> channel_id replyMessage \<noteq> channelId)
                      | _ \<Rightarrow> False)
             then (Inl InvalidReplyMessage, d)
             else
               let message =
                     \<lparr>msg_id = new_object_id (messages d), channel_id = channelId,
                      user_id = usr_id reqUser, content = trim content',
                      message_type = (case message_type' of None \<Rightarrow> ''text'' | Some t \<Rightarrow> t),
                      is_flagged = False, flag_reason = None, flagged_by = None,
                      flagged_at = None, is_deleted = False, deleted_by = None,
                      deleted_at = None, reply_to = reply_to_cast normalizedReplyTo,
                      created_at = now, updated_at = now\<rparr>
               in if validate_content (content message)
                       \<and> message_type message \<in> set message_types
                  then save d now message
                  else (Inl ValidationError, d))"

section \<open>middleware/contentModeration.js\<close>

text \<open>
  The third filter of the \<open>contentModeration\<close> chain, \<open>contentLengthValidation\<close>.  A
  middleware either calls \<open>next()\<close> or answers with a status and an error text.  The
  first two filters (the \<open>bad-words\<close> profanity list and the spam look-up in the store)
  and the fourth (URL count) are not modelled.
\<close>

datatype response = Next | Rejected nat string

definition too_long_error :: string where
  "too_long_error = ''Message content is too long. Maximum length is 2000 characters.''"

definition repeated_chars_error :: string where
  "repeated_chars_error =
     ''Message contains too many repeated characters. Please revise and try again.''"

text \<open>
  \<open>/(.)\1{10,}/.test(content)\<close>: at some position a code unit that \<open>.\<close> matches (any
  but a line terminator, the expression has neither the \<open>s\<close> nor the \<open>u\<close> flag) is
  followed by at least ten more copies of itself.
\<close>

fun repeatedChars_test :: "js_string \<Rightarrow> bool" where
  "repeatedChars_test [] = False"
| "repeatedChars_test (c # cs) =
     ((\<not> isLineTerminator c \<and> 10 \<le> length (takeWhile (\<lambda>x. x = c) cs))
      \<or> repeatedChars_test cs)"

text \<open>An absent body and the empty string are both falsy and pass.\<close>

definition contentLengthValidation :: "js_string \<Rightarrow> response" where
  "contentLengthValidation content' =
     (if content' = [] then Next
      else if length content' > 2000 then Rejected 400 too_long_error
      else if repeatedChars_test content' then Rejected 400 repeated_chars_error
      else Next)"

section \<open>websocket/socket.js\<close>

subsection \<open>Message handlers\<close>

text \<open>
  What the streaming handlers emit as \<open>error\<close> events, beyond the texts they share with
  the service: \<open>ModeratorRequired\<close> is "Moderator privileges required" and
  \<open>HandlerFailed\<close> the text of a handler's \<open>catch\<close> block.
\<close>

datatype socket_error = ModeratorRequired | HandlerFailed | Service error

text \<open>The site-wide role test \<open>user.role === 'moderator' || user.role === 'admin'\<close>.\<close>

definition isSiteModerator :: "user \<Rightarrow> bool" where
  "isSiteModerator u \<longleftrightarrow> usr_role u = RoleModerator \<or> usr_role u = RoleAdmin"



text \<open>
  \<open>delete_message\<close>: after the soft delete the handler reads
  \<open>message.channel_id._id\<close> for the broadcast, a \<open>TypeError\<close> when the channel document
  is gone.
\<close>

definition socket_delete_message ::
  "db \<Rightarrow> timestamp \<Rightarrow> object_id \<Rightarrow> object_id \<Rightarrow> (socket_error + bool) \<times> db" where
  "socket_delete_message d now socketUserId messageId =
     (case findById (messages d) messageId of
        None \<Rightarrow> (Inl (Service MessageNotFound), d)
      | Some message \<Rightarrow>
          (case findUserById (users d) socketUserId of
             None \<Rightarrow> (Inl HandlerFailed, d)
           | Some u \<Rightarrow>
               let isAuthor = (user_id message = socketUserId);
                   isModerator = isSiteModerator u;
                   hasChannelModeratorRole =
                     (findChannelById (channels d) (channel_id message) \<noteq> None
                      \<and> hasRole (members d) (channel_id message) socketUserId Moderator)
               in if \<not> isAuthor \<and> \<not> isModerator \<and> \<not> hasChannelModeratorRole
                  then (Inl (Service DeleteForbidden), d)
                  else
                    let d' = snd (softDelete d now message socketUserId)
                    in if findChannelById (channels d) (channel_id message) = None
                       then (Inl HandlerFailed, d')
                       else (Inr True, d')))"

subsection \<open>Presence state\<close>

text \<open>
  The three module-level maps \<open>connectedUsers\<close>, \<open>userChannels\<close> and \<open>typingUsers\<close>,
  together with what the transport knows: \<open>sockets\<close> are the connections that are open
  (from their \<open>connection\<close> event to their \<open>disconnect\<close> event) with the \<open>socket.userId\<close>
  the handshake gave them, \<open>rooms\<close> the rooms each has joined, and \<open>listening\<close> the
  sockets on which the connection handler got as far as registering its event handlers.
  No handler of the source asks the transport to close a connection.
\<close>

type_synonym socket_id = nat

record presence =
  sockets :: "socket_id \<rightharpoonup> object_id"
  rooms :: "socket_id \<Rightarrow> object_id set"
  listening :: "socket_id set"
  connectedUsers :: "object_id \<rightharpoonup> socket_id"
  userChannels :: "object_id \<rightharpoonup> object_id set"
  typingUsers :: "object_id \<rightharpoonup> object_id set"

definition no_presence :: presence where
  "no_presence =
     \<lparr>sockets = Map.empty, rooms = (\<lambda>s. {}), listening = {}, connectedUsers = Map.empty,
      userChannels = Map.empty, typingUsers = Map.empty\<rparr>"

text \<open>
  \<open>io.on('connection')\<close>: the maps are overwritten for the user, and the socket joins the
  rooms of the channels the user is an active member of, in the order of the membership
  documents.  At a membership whose channel document is gone, \<open>populate\<close> has left
  \<open>channel_id\<close> null and \<open>membership.channel_id._id\<close> is a \<open>TypeError\<close>: the channels
  after it are not joined, and the handler ends before it registers the event handlers of
  the socket.
\<close>

definition on_connection :: "db \<Rightarrow> socket_id \<Rightarrow> object_id \<Rightarrow> presence \<Rightarrow> presence" where
  "on_connection d s userId p =
     (let userChannelsList =
            filter (\<lambda>m. member_user_id m = userId \<and> is_active m) (members d);
          populated = (\<lambda>m. findChannelById (channels d) (member_channel_id m) \<noteq> None);
          joined = map member_channel_id (takeWhile populated userChannelsList)
      in p\<lparr>sockets := (sockets p)(s \<mapsto> userId),
            rooms := (rooms p)(s := set joined),
            listening := (if list_all populated userChannelsList then insert s (listening p)
                          else listening p - {s}),
            connectedUsers := (connectedUsers p)(userId \<mapsto> s),
            userChannels := (userChannels p)(userId \<mapsto> set joined)\<rparr>)"

text \<open>
  \<open>join_channel\<close> calls \<open>channel.isMember\<close>, which the Channel model does not define:
  for a stored channel the call is a \<open>TypeError\<close> that the handler catches, for a missing
  one the handler answers "Access denied to channel".  Either way nothing is joined.
\<close>

definition on_join_channel :: "db \<Rightarrow> socket_id \<Rightarrow> object_id \<Rightarrow> presence \<Rightarrow> presence" where
  "on_join_channel d s channelId p = p"

text \<open>
  \<open>leave_channel\<close>: \<open>socket.leave\<close>, then \<open>userChannels.get(userId).delete(channelId)\<close>,
  which is a caught \<open>TypeError\<close> when the user's entry is gone.
\<close>

definition on_leave_channel :: "socket_id \<Rightarrow> object_id \<Rightarrow> presence \<Rightarrow> presence" where
  "on_leave_channel s channelId p =
     (case sockets p s of
        None \<Rightarrow> p
      | Some userId \<Rightarrow>
          let p1 = p\<lparr>rooms := (rooms p)(s := rooms p s - {channelId})\<rparr>
          in case userChannels p1 userId of
               None \<Rightarrow> p1
             | Some cs \<Rightarrow> p1\<lparr>userChannels := (userChannels p1)(userId \<mapsto> cs - {channelId})\<rparr>)"

definition on_typing_start :: "socket_id \<Rightarrow> object_id \<Rightarrow> presence \<Rightarrow> presence" where
  "on_typing_start s channelId p =
     (case sockets p s of
        None \<Rightarrow> p
      | Some userId \<Rightarrow>
          (case userChannels p userId of
             None \<Rightarrow> p
           | Some cs \<Rightarrow>
               if channelId \<notin> cs then p
               else
                 let typing = (case typingUsers p channelId of None \<Rightarrow> {} | Some us \<Rightarrow> us)
                 in p\<lparr>typingUsers := (typingUsers p)(channelId \<mapsto> insert userId typing)\<rparr>))"

text \<open>
  The block shared by \<open>typing_stop\<close>, \<open>new_message\<close> and \<open>disconnect\<close>: delete the user
  from the channel's set and drop the set when it is empty.
\<close>

definition stop_typing ::
  "object_id \<Rightarrow> object_id \<Rightarrow> (object_id \<rightharpoonup> object_id set) \<Rightarrow> (object_id \<rightharpoonup> object_id set)" where
  "stop_typing channelId userId typing =
     (case typing channelId of
        None \<Rightarrow> typing
      | Some us \<Rightarrow>
          if us - {userId} = {} then typing(channelId := None)
          else typing(channelId \<mapsto> us - {userId}))"

definition on_typing_stop :: "socket_id \<Rightarrow> object_id \<Rightarrow> presence \<Rightarrow> presence" where
  "on_typing_stop s channelId p =
     (case sockets p s of
        None \<Rightarrow> p
      | Some userId \<Rightarrow> p\<lparr>typingUsers := stop_typing channelId userId (typingUsers p)\<rparr>)"

text \<open>
  \<open>new_message\<close> checks the channel and the membership, saves the message with whatever
  \<open>replyTo\<close> it was given, and then clears the sender's typing entry.
\<close>

definition on_new_message ::
  "timestamp \<Rightarrow> socket_id \<Rightarrow> object_id \<Rightarrow> js_string \<Rightarrow> reply_arg \<Rightarrow> db \<times> presence
     \<Rightarrow> db \<times> presence" where
  "on_new_message now s channelId content' replyTo dp =
     (let d = fst dp; p = snd dp
      in case sockets p s of
           None \<Rightarrow> dp
         | Some userId \<Rightarrow>
             if findChannelById (channels d) channelId = None
                  \<or> \<not> isMember (members d) channelId userId
             then dp
             else
               let message =
                     \<lparr>msg_id = new_object_id (messages d), channel_id = channelId,
                      user_id = userId, content = trim content', message_type = ''text'',
                      is_flagged = False, flag_reason = None, flagged_by = None,
                      flagged_at = None, is_deleted = False, deleted_by = None,
                      deleted_at = None, reply_to = reply_to_cast replyTo, created_at = now,
                      updated_at = now\<rparr>
               in if \<not> validate_content (content message) \<or> replyTo = EmptyString then dp
                  else (snd (save d now message),
                        p\<lparr>typingUsers := stop_typing channelId userId (typingUsers p)\<rparr>))"

text \<open>
  \<open>disconnect\<close> clears the typing entries of the channels still listed in the user's
  \<open>userChannels\<close> entry, then deletes the user's entries of both maps.
\<close>

definition on_disconnect :: "socket_id \<Rightarrow> presence \<Rightarrow> presence" where
  "on_disconnect s p =
     (case sockets p s of
        None \<Rightarrow> p
      | Some userId \<Rightarrow>
          let typing =
                (case userChannels p userId of
                   None \<Rightarrow> typingUsers p
                 | Some cs \<Rightarrow>
                     (\<lambda>c. if c \<in> cs then stop_typing c userId (typingUsers p) c
                          else typingUsers p c))
          in p\<lparr>sockets := (sockets p)(s := None),
                rooms := (rooms p)(s := {}),
                listening := listening p - {s},
                typingUsers := typing,
                connectedUsers := (connectedUsers p)(userId := None),
                userChannels := (userChannels p)(userId := None)\<rparr>)"

datatype event =
    Connection socket_id object_id
  | JoinChannel socket_id object_id
  | LeaveChannel socket_id object_id
  | TypingStart socket_id object_id
  | TypingStop socket_id object_id
  | NewMessage timestamp socket_id object_id js_string reply_arg
  | Disconnect socket_id

text \<open>
  What the transport does when a connection closes on which no \<open>disconnect\<close> handler
  was registered: the socket is gone and has left its rooms, the maps stay as they are.
\<close>

definition transport_close :: "socket_id \<Rightarrow> presence \<Rightarrow> presence" where
  "transport_close s p = p\<lparr>sockets := (sockets p)(s := None), rooms := (rooms p)(s := {})\<rparr>"

text \<open>
  The authentication middleware \<open>io.use\<close> lets a handshake through only for a stored
  user (the ban it also tests is not modelled).  An event of a socket reaches its handler
  only when the connection handler has registered one.
\<close>

fun handle :: "event \<Rightarrow> db \<times> presence \<Rightarrow> db \<times> presence" where
  "handle (Connection s u) (d, p) =
     (if findUserById (users d) u = None then (d, p) else (d, on_connection d s u p))"
| "handle (JoinChannel s c) (d, p) =
     (if s \<in> listening p then (d, on_join_channel d s c p) else (d, p))"
| "handle (LeaveChannel s c) (d, p) =
     (if s \<in> listening p then (d, on_leave_channel s c p) else (d, p))"
| "handle (TypingStart s c) (d, p) =
     (if s \<in> listening p then (d, on_typing_start s c p) else (d, p))"
| "handle (TypingStop s c) (d, p) =
     (if s \<in> listening p then (d, on_typing_stop s c p) else (d, p))"
| "handle (NewMessage now s c body r) (d, p) =
     (if s \<in> listening p then on_new_message now s c body r (d, p) else (d, p))"
| "handle (Disconnect s) (d, p) =
     (if s \<in> listening p then (d, on_disconnect s p) else (d, transport_close s p))"

text \<open>The handlers run one event at a time, in arrival order.\<close>

definition run :: "event list \<Rightarrow> db \<times> presence \<Rightarrow> db \<times> presence" where
  "run evs dp = fold handle evs dp"

text \<open>
  The typing invariant of the specification: who is in a channel's typing set holds a
  subscription to that channel.
\<close>

definition typing_subscribed :: "presence \<Rightarrow> bool" where
  "typing_subscribed p \<longleftrightarrow>
     (\<forall>c u. (\<exists>us. typingUsers p c = Some us \<and> u \<in> us)
              \<longrightarrow> (\<exists>cs. userChannels p u = Some cs \<and> c \<in> cs))"

section \<open>A sample store\<close>

text \<open>
  Channel 10 is public and channel 20 private.  In channel 10, user 1 is a plain member,
  user 2 a moderator and user 3 an admin.  User 5 is a moderator of the whole site and a
  member of no channel; user 6 is a plain user and a member of no channel.  Messages 1, 3
  and 4 are in channel 10 and message 2 is in channel 20, all written by user 1 at time
  1000000; message 3 is soft-deleted and message 4 is flagged.
\<close>

definition sample_message :: "object_id \<Rightarrow> object_id \<Rightarrow> message" where
  "sample_message i c =
     \<lparr>msg_id = i, channel_id = c, user_id = 1, content = js ''hello'',
      message_type = ''text'', is_flagged = False, flag_reason = None, flagged_by = None,
      flagged_at = None, is_deleted = False, deleted_by = None, deleted_at = None,
      reply_to = None, created_at = 1000000, updated_at = 1000000\<rparr>"

definition sample_db :: db where
  "sample_db =
     \<lparr>channels = [\<lparr>ch_id = 10, is_private = False\<rparr>, \<lparr>ch_id = 20, is_private = True\<rparr>],
      members =
        [\<lparr>member_channel_id = 10, member_user_id = 1, member_role = Member, is_active = True\<rparr>,
         \<lparr>member_channel_id = 10, member_user_id = 2, member_role = Moderator, is_active = True\<rparr>,
         \<lparr>member_channel_id = 10, member_user_id = 3, member_role = Admin, is_active = True\<rparr>],
      messages =
        [sample_message 1 10,
         sample_message 2 20,
         (sample_message 3 10)\<lparr>is_deleted := True, deleted_by := Some 1,
                                 deleted_at := Some 1000500\<rparr>,
         (sample_message 4 10)\<lparr>is_flagged := True, flag_reason := Some ''spam'',
                                 flagged_by := Some 2, flagged_at := Some 1000700\<rparr>],
      users =
        [\<lparr>usr_id = 1, usr_role = RoleUser\<rparr>, \<lparr>usr_id = 2, usr_role = RoleUser\<rparr>,
         \<lparr>usr_id = 3, usr_role = RoleUser\<rparr>, \<lparr>usr_id = 5, usr_role = RoleModerator\<rparr>,
         \<lparr>usr_id = 6, usr_role = RoleUser\<rparr>]\<rparr>"

section \<open>Properties\<close>

subsection \<open>The store\<close>

lemma findById_msg_id: "findById ms i = Some m \<Longrightarrow> msg_id m = i"
  by (auto simp: findById_def find_Some_iff)

lemma findById_in_set: "findById ms i = Some m \<Longrightarrow> m \<in> set ms"
  by (auto simp: findById_def find_Some_iff)

lemma findById_replace:
  assumes "findById ms i = Some m" and "msg_id m' = i"
  shows "findById (map (\<lambda>x. if msg_id x = i then m' else x) ms) i = Some m'"
  using assms unfolding findById_def
  by (induction ms) (auto split: if_splits)

lemma save_existing:
  assumes "findById (messages d) (msg_id m) = Some m0"
  shows "fst (save d now m) = Inr (m\<lparr>updated_at := now\<rparr>)"
    and "findById (messages (snd (save d now m))) (msg_id m) = Some (m\<lparr>updated_at := now\<rparr>)"
  using assms findById_replace [of "messages d" "msg_id m" m0 "m\<lparr>updated_at := now\<rparr>"]
  by (simp_all add: save_def Let_def)

subsection \<open>The edit window\<close>

lemma updateMessage_expired_iff:
  assumes "findById (messages d) mid = Some m" and "user_id m = uid"
  shows "fst (updateMessage d now mid c uid) = Inl EditWindowExpired
           \<longleftrightarrow> 5 * 60 * 1000 < now - created_at m"
  using assms
  by (auto simp: updateMessage_def Let_def save_def)

lemma updateMessage_in_window:
  assumes "findById (messages d) mid = Some m" and "user_id m = uid"
    and "now - created_at m \<le> 5 * 60 * 1000" and "validate_content (trim c)"
  shows "fst (updateMessage d now mid c uid) = Inr (m\<lparr>content := trim c, updated_at := now\<rparr>)"
    and "findById (messages (snd (updateMessage d now mid c uid))) mid
           = Some (m\<lparr>content := trim c, updated_at := now\<rparr>)"
proof -
  let ?e = "m\<lparr>content := trim c\<rparr>"
  have id: "msg_id ?e = mid"
    using assms(1) by (simp add: findById_msg_id)
  have upd: "updateMessage d now mid c uid = save d now ?e"
    using assms by (simp add: updateMessage_def Let_def)
  have found: "findById (messages d) (msg_id ?e) = Some m"
    using assms(1) id by simp
  show "fst (updateMessage d now mid c uid) = Inr (m\<lparr>content := trim c, updated_at := now\<rparr>)"
    using save_existing(1) [OF found] upd by simp
  show "findById (messages (snd (updateMessage d now mid c uid))) mid
          = Some (m\<lparr>content := trim c, updated_at := now\<rparr>)"
    using save_existing(2) [OF found, of now] upd id by simp
qed

text \<open>
  Claim C3.  For a stored message edited by its author, \<open>updateMessage\<close> fails with the
  edit-window error exactly when \<open>now - created_at\<close> exceeds five minutes (300000 ms).
  Inside the window an edit whose trimmed body passes the schema succeeds and is written
  back; in particular an edit 4:59 after creation succeeds and an edit 5:01 after creation
  fails with the edit-window error.
\<close>

theorem updateMessage_edit_window:
  assumes "findById (messages d) mid = Some m" and "user_id m = uid"
  shows "(fst (updateMessage d now mid c uid) = Inl EditWindowExpired
            \<longleftrightarrow> 5 * 60 * 1000 < now - created_at m)
       \<and> (now - created_at m \<le> 5 * 60 * 1000 \<and> validate_content (trim c)
            \<longrightarrow> fst (updateMessage d now mid c uid)
                  = Inr (m\<lparr>content := trim c, updated_at := now\<rparr>)
              \<and> findById (messages (snd (updateMessage d now mid c uid))) mid
                  = Some (m\<lparr>content := trim c, updated_at := now\<rparr>))
       \<and> (validate_content (trim c)
            \<longrightarrow> fst (updateMessage d (created_at m + 299000) mid c uid)
                  = Inr (m\<lparr>content := trim c, updated_at := created_at m + 299000\<rparr>))
       \<and> fst (updateMessage d (created_at m + 301000) mid c uid) = Inl EditWindowExpired"
proof (intro conjI impI)
  show "fst (updateMessage d now mid c uid) = Inl EditWindowExpired
          \<longleftrightarrow> 5 * 60 * 1000 < now - created_at m"
    by (rule updateMessage_expired_iff [OF assms])
next
  assume h: "now - created_at m \<le> 5 * 60 * 1000 \<and> validate_content (trim c)"
  then show "fst (updateMessage d now mid c uid) = Inr (m\<lparr>content := trim c, updated_at := now\<rparr>)"
    using updateMessage_in_window(1) [OF assms] by blast
  from h show "findById (messages (snd (updateMessage d now mid c uid))) mid
          = Some (m\<lparr>content := trim c, updated_at := now\<rparr>)"
    using updateMessage_in_window(2) [OF assms] by blast
next
  assume "validate_content (trim c)"
  then show "fst (updateMessage d (created_at m + 299000) mid c uid)
          = Inr (m\<lparr>content := trim c, updated_at := created_at m + 299000\<rparr>)"
    using updateMessage_in_window(1) [OF assms, of "created_at m + 299000" c] by simp
next
  show "fst (updateMessage d (created_at m + 301000) mid c uid) = Inl EditWindowExpired"
    using updateMessage_expired_iff [OF assms, of "created_at m + 301000" c] by simp
qed

text \<open>
  The sample message 1, created at 1000000: edits at 1299000 and at the boundary 1300000
  are inside the window, the edit at 1301000 is outside.
\<close>

theorem updateMessage_edit_window_witness:
  "findById (messages sample_db) 1 = Some (sample_message 1 10)
   \<and> user_id (sample_message 1 10) = 1
   \<and> validate_content (trim (js ''edited''))
   \<and> fst (updateMessage sample_db 1299000 1 (js ''edited'') 1)
        = Inr ((sample_message 1 10)\<lparr>content := js ''edited'', updated_at := 1299000\<rparr>)
   \<and> fst (updateMessage sample_db 1301000 1 (js ''edited'') 1) = Inl EditWindowExpired
   \<and> fst (updateMessage sample_db 1300000 1 (js ''edited'') 1) \<noteq> Inl EditWindowExpired"
proof -
  have f: "findById (messages sample_db) 1 = Some (sample_message 1 10)"
    by (simp add: sample_db_def findById_def sample_message_def)
  have u: "user_id (sample_message 1 10) = 1"
    by (simp add: sample_message_def)
  have t: "trim (js ''edited'') = js ''edited''"
    by (simp add: trim_def js_def isWhiteSpace_def isLineTerminator_def)
  have v: "validate_content (trim (js ''edited''))"
    by (simp add: t) (simp add: validate_content_def js_def)
  have c: "\<And>i ch. created_at (sample_message i ch) = 1000000"
    by (simp add: sample_message_def)
  note w = updateMessage_edit_window [OF f u, of _ "js ''edited''"]
  have ok: "fst (updateMessage sample_db 1299000 1 (js ''edited'') 1)
        = Inr ((sample_message 1 10)\<lparr>content := js ''edited'', updated_at := 1299000\<rparr>)"
    using w [of 0] v by (simp add: c t)
  have late: "fst (updateMessage sample_db 1301000 1 (js ''edited'') 1) = Inl EditWindowExpired"
    using w [of 0] by (simp add: c)
  have edge: "fst (updateMessage sample_db 1300000 1 (js ''edited'') 1) \<noteq> Inl EditWindowExpired"
    using w [of 1300000] by (simp add: c)
  show ?thesis using f u v ok late edge by blast
qed

subsection \<open>Channel roles\<close>

lemma roleHierarchy_spec: "roleHierarchy r \<le> roleHierarchy r' \<longleftrightarrow> role_at_least_spec r' r"
  by (cases r; cases r') (simp_all add: roleHierarchy_def)

lemma findOneActive_SomeD:
  assumes "findOneActive ms c u = Some m"
  shows "m \<in> set ms" and "member_channel_id m = c" and "member_user_id m = u" and "is_active m"
  using assms by (auto simp: findOneActive_def find_Some_iff)

lemma findOneActive_unique:
  assumes uniq: "unique_membership ms"
    and m: "m \<in> set ms" "member_channel_id m = c" "member_user_id m = u" "is_active m"
  shows "findOneActive ms c u = Some m"
proof -
  have "findOneActive ms c u \<noteq> None"
    using m by (auto simp: findOneActive_def find_None_iff)
  then obtain m' where f: "findOneActive ms c u = Some m'"
    by blast
  have inj: "inj_on (\<lambda>m. (member_channel_id m, member_user_id m)) (set ms)"
    using uniq by (simp add: unique_membership_def distinct_map)
  have "(member_channel_id m', member_user_id m') = (member_channel_id m, member_user_id m)"
    using findOneActive_SomeD(2,3) [OF f] m by simp
  then have "m' = m"
    using inj findOneActive_SomeD(1) [OF f] m(1) by (auto dest: inj_onD)
  then show ?thesis using f by simp
qed

lemma hasRole_iff:
  assumes "unique_membership ms"
  shows "hasRole ms c u r \<longleftrightarrow>
           (\<exists>m \<in> set ms. member_channel_id m = c \<and> member_user_id m = u \<and> is_active m
                \<and> role_at_least_spec (member_role m) r)"
proof
  assume "hasRole ms c u r"
  then obtain m where f: "findOneActive ms c u = Some m"
      and r: "roleHierarchy r \<le> roleHierarchy (member_role m)"
    by (auto simp: hasRole_def split: option.splits)
  show "\<exists>m \<in> set ms. member_channel_id m = c \<and> member_user_id m = u \<and> is_active m
            \<and> role_at_least_spec (member_role m) r"
    using findOneActive_SomeD [OF f] r roleHierarchy_spec by blast
next
  assume "\<exists>m \<in> set ms. member_channel_id m = c \<and> member_user_id m = u \<and> is_active m
            \<and> role_at_least_spec (member_role m) r"
  then obtain m where m: "m \<in> set ms" "member_channel_id m = c" "member_user_id m = u" "is_active m"
      and r: "role_at_least_spec (member_role m) r"
    by blast
  have "findOneActive ms c u = Some m"
    by (rule findOneActive_unique [OF assms m])
  then show "hasRole ms c u r"
    using r by (simp add: hasRole_def roleHierarchy_spec)
qed


lemma deleteMessage_allowed:
  assumes "findById (messages d) mid = Some m"
    and "user_id m = u \<or> (findChannelById (channels d) (channel_id m) \<noteq> None
                            \<and> hasRole (members d) (channel_id m) u Moderator)"
  shows "fst (deleteMessage d now mid u) = Inr True"
    and "findById (messages (snd (deleteMessage d now mid u))) mid
           = Some (m\<lparr>is_deleted := True, deleted_by := Some u, deleted_at := Some now,
                      updated_at := now\<rparr>)"
proof -
  let ?m' = "m\<lparr>is_deleted := True, deleted_by := Some u, deleted_at := Some now\<rparr>"
  have id: "msg_id ?m' = mid"
    using assms(1) by (simp add: findById_msg_id)
  have found: "findById (messages d) (msg_id ?m') = Some m"
    using assms(1) id by simp
  have del: "deleteMessage d now mid u = (Inr True, snd (save d now ?m'))"
    using assms by (auto simp: deleteMessage_def Let_def softDelete_def)
  show "fst (deleteMessage d now mid u) = Inr True"
    by (simp add: del)
  show "findById (messages (snd (deleteMessage d now mid u))) mid
           = Some (m\<lparr>is_deleted := True, deleted_by := Some u, deleted_at := Some now,
                      updated_at := now\<rparr>)"
    using save_existing(2) [OF found, of now] id by (simp add: del)
qed

text \<open>
  Claim C10.  Under the unique index on memberships, \<open>hasRole\<close> holds exactly when the
  user has an active membership of the channel whose role is at least the required one in
  the order member, moderator, admin.  Hence a channel admin passes every moderator check,
  the one of \<open>deleteMessage\<close> among them: an admin of a stored channel may delete any
  message of it.
\<close>

theorem hasRole_role_order:
  assumes "unique_membership (members d)"
  shows "(hasRole (members d) c u r \<longleftrightarrow>
            (\<exists>m \<in> set (members d). member_channel_id m = c \<and> member_user_id m = u
                 \<and> is_active m \<and> role_at_least_spec (member_role m) r))
       \<and> (hasRole (members d) c u Admin \<longrightarrow> hasRole (members d) c u Moderator)
       \<and> (\<forall>msg. findById (messages d) mid = Some msg
                  \<and> findChannelById (channels d) (channel_id msg) \<noteq> None
                  \<and> hasRole (members d) (channel_id msg) u Admin
              \<longrightarrow> fst (deleteMessage d now mid u) = Inr True)"
proof (intro conjI allI impI)
  show "hasRole (members d) c u r \<longleftrightarrow>
            (\<exists>m \<in> set (members d). member_channel_id m = c \<and> member_user_id m = u
                 \<and> is_active m \<and> role_at_least_spec (member_role m) r)"
    by (rule hasRole_iff [OF assms])
next
  assume "hasRole (members d) c u Admin"
  then show "hasRole (members d) c u Moderator"
    by (auto simp: hasRole_def roleHierarchy_def split: option.splits role.splits)
next
  fix msg
  assume h: "findById (messages d) mid = Some msg
               \<and> findChannelById (channels d) (channel_id msg) \<noteq> None
               \<and> hasRole (members d) (channel_id msg) u Admin"
  then have "hasRole (members d) (channel_id msg) u Moderator"
    by (auto simp: hasRole_def roleHierarchy_def split: option.splits role.splits)
  with h show "fst (deleteMessage d now mid u) = Inr True"
    using deleteMessage_allowed(1) [of d mid msg u now] by blast
qed

text \<open>
  In the sample store the admin 3 of channel 10 passes the moderator check and deletes
  message 1 of user 1; the plain member 1 does not pass it.
\<close>

theorem hasRole_role_order_witness:
  "unique_membership (members sample_db)
   \<and> hasRole (members sample_db) 10 3 Moderator
   \<and> hasRole (members sample_db) 10 3 Admin
   \<and> \<not> hasRole (members sample_db) 10 1 Moderator
   \<and> fst (deleteMessage sample_db 2000000 1 3) = Inr True"
proof -
  have u: "unique_membership (members sample_db)"
    by (simp add: unique_membership_def sample_db_def)
  note w = hasRole_role_order [OF u]
  have adm: "hasRole (members sample_db) 10 3 Admin"
    using w [of 10 3 Admin] by (simp add: sample_db_def)
  have mod: "hasRole (members sample_db) 10 3 Moderator"
    using w [of 10 3] adm by blast
  have no: "\<not> hasRole (members sample_db) 10 1 Moderator"
    using w [of 10 1 Moderator] by (simp add: sample_db_def)
  have f: "findById (messages sample_db) 1 = Some (sample_message 1 10)"
    by (simp add: sample_db_def findById_def sample_message_def)
  have c: "findChannelById (channels sample_db) (channel_id (sample_message 1 10)) \<noteq> None"
    by (simp add: sample_db_def findChannelById_def sample_message_def)
  have a: "hasRole (members sample_db) (channel_id (sample_message 1 10)) 3 Admin"
    using adm by (simp add: sample_message_def)
  have del: "fst (deleteMessage sample_db 2000000 1 3) = Inr True"
    using w [of 10 3 Admin 1 2000000] f c a by blast
  show ?thesis using u adm mod no del by blast
qed

subsection \<open>Flagging\<close>

lemma flagMessage_first:
  assumes "findById (messages d) mid = Some m" and "\<not> is_flagged m"
    and "reason \<in> set flag_reasons"
  shows "fst (flagMessage d now mid reason u)
           = Inr (m\<lparr>is_flagged := True, flag_reason := Some reason, flagged_by := Some u,
                     flagged_at := Some now, updated_at := now\<rparr>)"
    and "findById (messages (snd (flagMessage d now mid reason u))) mid
           = Some (m\<lparr>is_flagged := True, flag_reason := Some reason, flagged_by := Some u,
                      flagged_at := Some now, updated_at := now\<rparr>)"
proof -
  let ?m' = "m\<lparr>is_flagged := True, flag_reason := Some reason, flagged_by := Some u,
                flagged_at := Some now\<rparr>"
  have id: "msg_id ?m' = mid"
    using assms(1) by (simp add: findById_msg_id)
  have found: "findById (messages d) (msg_id ?m') = Some m"
    using assms(1) id by simp
  have fl: "flagMessage d now mid reason u = save d now ?m'"
    using assms by (simp add: flagMessage_def flag_def Let_def)
  show "fst (flagMessage d now mid reason u)
           = Inr (m\<lparr>is_flagged := True, flag_reason := Some reason, flagged_by := Some u,
                     flagged_at := Some now, updated_at := now\<rparr>)"
    using save_existing(1) [OF found, of now] by (simp add: fl)
  show "findById (messages (snd (flagMessage d now mid reason u))) mid
           = Some (m\<lparr>is_flagged := True, flag_reason := Some reason, flagged_by := Some u,
                      flagged_at := Some now, updated_at := now\<rparr>)"
    using save_existing(2) [OF found, of now] id by (simp add: fl)
qed

lemma flagMessage_flagged:
  assumes "findById (messages d) mid = Some m" and "is_flagged m"
  shows "flagMessage d now mid reason u = (Inl AlreadyFlagged, d)"
  using assms by (simp add: flagMessage_def)

text \<open>
  Claim C8.  Two \<open>flagMessage\<close> calls in a row on a stored message that is not yet flagged,
  the first with a reason of the schema's enumeration: the first succeeds and stores the
  flag with its reason, its reporter and its time; the second, from whichever reporter and
  with whichever reason, fails with the already-flagged error and leaves the store as the
  first call left it.
\<close>

theorem flagMessage_twice:
  assumes "findById (messages d) mid = Some m" and "\<not> is_flagged m"
    and "reason \<in> set flag_reasons"
  shows "fst (flagMessage d t1 mid reason u1)
           = Inr (m\<lparr>is_flagged := True, flag_reason := Some reason, flagged_by := Some u1,
                     flagged_at := Some t1, updated_at := t1\<rparr>)
       \<and> findById (messages (snd (flagMessage d t1 mid reason u1))) mid
           = Some (m\<lparr>is_flagged := True, flag_reason := Some reason, flagged_by := Some u1,
                      flagged_at := Some t1, updated_at := t1\<rparr>)
       \<and> flagMessage (snd (flagMessage d t1 mid reason u1)) t2 mid reason' u2
           = (Inl AlreadyFlagged, snd (flagMessage d t1 mid reason u1))"
proof -
  let ?f = "m\<lparr>is_flagged := True, flag_reason := Some reason, flagged_by := Some u1,
               flagged_at := Some t1, updated_at := t1\<rparr>"
  have stored: "findById (messages (snd (flagMessage d t1 mid reason u1))) mid = Some ?f"
    by (rule flagMessage_first(2) [OF assms])
  have "is_flagged ?f"
    by simp
  then have "flagMessage (snd (flagMessage d t1 mid reason u1)) t2 mid reason' u2
           = (Inl AlreadyFlagged, snd (flagMessage d t1 mid reason u1))"
    by (rule flagMessage_flagged [OF stored])
  then show ?thesis
    using flagMessage_first(1) [OF assms, of t1 u1] stored by blast
qed

text \<open>
  Message 1 of the sample store, flagged as spam by user 2 and then again by user 3.
\<close>

theorem flagMessage_twice_witness:
  "findById (messages sample_db) 1 = Some (sample_message 1 10)
   \<and> \<not> is_flagged (sample_message 1 10)
   \<and> ''spam'' \<in> set flag_reasons
   \<and> fst (flagMessage sample_db 1000100 1 ''spam'' 2)
        = Inr ((sample_message 1 10)\<lparr>is_flagged := True, flag_reason := Some ''spam'',
                 flagged_by := Some 2, flagged_at := Some 1000100, updated_at := 1000100\<rparr>)
   \<and> flagMessage (snd (flagMessage sample_db 1000100 1 ''spam'' 2)) 1000200 1 ''other'' 3
        = (Inl AlreadyFlagged, snd (flagMessage sample_db 1000100 1 ''spam'' 2))"
proof -
  have f: "findById (messages sample_db) 1 = Some (sample_message 1 10)"
    by (simp add: sample_db_def findById_def sample_message_def)
  have n: "\<not> is_flagged (sample_message 1 10)"
    by (simp add: sample_message_def)
  have r: "''spam'' \<in> set flag_reasons"
    by (simp add: flag_reasons_def)
  show ?thesis
    using f n r flagMessage_twice [OF f n r, of 1000100 2 1000200 "''other''" 3] by blast
qed

subsection \<open>Listings\<close>

lemma find_sorted_page_subset:
  "set (find_sorted_page matching skip limit ms) \<subseteq> {m \<in> set ms. matching m}"
proof -
  have "set (drop skip (rev (sort_key created_at (filter matching ms))))
          \<subseteq> {m \<in> set ms. matching m}"
    using set_drop_subset [of skip "rev (sort_key created_at (filter matching ms))"] by auto
  moreover have "set (take limit (drop skip (rev (sort_key created_at (filter matching ms)))))
          \<subseteq> set (drop skip (rev (sort_key created_at (filter matching ms))))"
    by (rule set_take_subset)
  ultimately show ?thesis
    unfolding find_sorted_page_def Let_def by (auto split: if_splits)
qed

lemma getChannelMessages_sound:
  assumes "getChannelMessages d c page limit u = Inr (ps, cnt)" and "p \<in> set ps"
  shows "\<exists>m \<in> set (messages d). p = getPublicInfo m \<and> channel_id m = c \<and> is_deleted m = False"
proof -
  obtain skip lim where "ps = map getPublicInfo
      (find_sorted_page (\<lambda>m. channel_id m = c \<and> is_deleted m = False) skip lim (messages d))"
    using assms(1)
    by (auto simp: getChannelMessages_def Let_def split: option.splits if_splits)
  then obtain m where "p = getPublicInfo m"
      and "m \<in> set (find_sorted_page (\<lambda>m. channel_id m = c \<and> is_deleted m = False) skip lim (messages d))"
    using assms(2) by auto
  then show ?thesis
    using find_sorted_page_subset [of "\<lambda>m. channel_id m = c \<and> is_deleted m = False" skip lim "messages d"]
    by auto
qed

lemma searchMessages_sound:
  assumes "searchMessages regex d c q page limit u = Inr (ps, cnt)" and "p \<in> set ps"
  shows "\<exists>m \<in> set (messages d). p = getPublicInfo m \<and> channel_id m = c \<and> is_deleted m = False"
proof -
  obtain skip lim where "ps = map getPublicInfo
      (find_sorted_page (\<lambda>m. channel_id m = c \<and> regex q (content m) \<and> is_deleted m = False)
         skip lim (messages d))"
    using assms(1)
    by (auto simp: searchMessages_def Let_def split: option.splits if_splits)
  then obtain m where "p = getPublicInfo m"
      and "m \<in> set (find_sorted_page (\<lambda>m. channel_id m = c \<and> regex q (content m) \<and> is_deleted m = False)
              skip lim (messages d))"
    using assms(2) by auto
  then show ?thesis
    using find_sorted_page_subset
      [of "\<lambda>m. channel_id m = c \<and> regex q (content m) \<and> is_deleted m = False" skip lim "messages d"]
    by auto
qed

lemma getPublicInfo_is_deleted: "pub_is_deleted (getPublicInfo m) = is_deleted m"
  by (simp add: getPublicInfo_def)

text \<open>
  Claim C9.  Whatever \<open>getChannelMessages\<close> and \<open>searchMessages\<close> return is the public
  view of a stored message of the channel that is not soft-deleted, so every returned entry
  has \<open>is_deleted = false\<close>; the same holds for the model's static
  \<open>Message.getChannelMessages\<close> behind the streaming history.
\<close>

theorem listings_exclude_soft_deleted:
  "(getChannelMessages d c page limit u = Inr (ps, cnt) \<longrightarrow>
      (\<forall>p \<in> set ps. pub_is_deleted p = False
          \<and> (\<exists>m \<in> set (messages d). p = getPublicInfo m \<and> channel_id m = c
                 \<and> is_deleted m = False)))
   \<and> (searchMessages regex d c q page limit u = Inr (ps', cnt') \<longrightarrow>
      (\<forall>p \<in> set ps'. pub_is_deleted p = False
          \<and> (\<exists>m \<in> set (messages d). p = getPublicInfo m \<and> channel_id m = c
                 \<and> is_deleted m = False)))
   \<and> (Message_getChannelMessages (messages d) c pg lim = Inr found \<longrightarrow>
      (\<forall>m \<in> set found. m \<in> set (messages d) \<and> channel_id m = c \<and> is_deleted m = False))"
proof (intro conjI impI ballI)
  fix p assume a: "getChannelMessages d c page limit u = Inr (ps, cnt)" "p \<in> set ps"
  from getChannelMessages_sound [OF a]
  show ex: "\<exists>m \<in> set (messages d). p = getPublicInfo m \<and> channel_id m = c \<and> is_deleted m = False" .
  then show "pub_is_deleted p = False"
    by (auto simp: getPublicInfo_is_deleted)
next
  fix p assume a: "searchMessages regex d c q page limit u = Inr (ps', cnt')" "p \<in> set ps'"
  from searchMessages_sound [OF a]
  show ex: "\<exists>m \<in> set (messages d). p = getPublicInfo m \<and> channel_id m = c \<and> is_deleted m = False" .
  then show "pub_is_deleted p = False"
    by (auto simp: getPublicInfo_is_deleted)
next
  fix m assume a: "Message_getChannelMessages (messages d) c pg lim = Inr found" "m \<in> set found"
  then have "m \<in> set (find_sorted_page (\<lambda>m. channel_id m = c \<and> is_deleted m = False)
                    ((pg - 1) * lim) lim (messages d))"
    by (auto simp: Message_getChannelMessages_def split: if_splits)
  then show "m \<in> set (messages d)" and "channel_id m = c" and "is_deleted m = False"
    using find_sorted_page_subset
      [of "\<lambda>m. channel_id m = c \<and> is_deleted m = False" "(pg - 1) * lim" lim "messages d"]
    by auto
qed

lemma sample_history:
  "getChannelMessages sample_db 10 None None 6
     = Inr ([getPublicInfo ((sample_message 4 10)\<lparr>is_flagged := True, flag_reason := Some ''spam'',
                                 flagged_by := Some 2, flagged_at := Some 1000700\<rparr>),
             getPublicInfo (sample_message 1 10)], 2)"
  by (simp add: getChannelMessages_def sample_db_def findChannelById_def find_sorted_page_def
      sample_message_def Let_def)

lemma sample_search:
  "searchMessages (\<lambda>q body. True) sample_db 10 (js ''h'') None None 6
     = Inr ([getPublicInfo ((sample_message 4 10)\<lparr>is_flagged := True, flag_reason := Some ''spam'',
                                 flagged_by := Some 2, flagged_at := Some 1000700\<rparr>),
             getPublicInfo (sample_message 1 10)], 2)"
  by (simp add: searchMessages_def sample_db_def findChannelById_def find_sorted_page_def
      sample_message_def Let_def js_def)

lemma getMessageById_returns_soft_deleted:
  "getMessageById sample_db 3 6
     = Inr ((sample_message 3 10)\<lparr>is_deleted := True, deleted_by := Some 1,
                                     deleted_at := Some 1000500\<rparr>)"
  by (simp add: getMessageById_def sample_db_def findById_def findChannelById_def
      sample_message_def)

theorem listings_exclude_soft_deleted_witness:
  "getChannelMessages sample_db 10 None None 6
     = Inr ([getPublicInfo ((sample_message 4 10)\<lparr>is_flagged := True, flag_reason := Some ''spam'',
                                 flagged_by := Some 2, flagged_at := Some 1000700\<rparr>),
             getPublicInfo (sample_message 1 10)], 2)
   \<and> searchMessages (\<lambda>q body. True) sample_db 10 (js ''h'') None None 6
     = Inr ([getPublicInfo ((sample_message 4 10)\<lparr>is_flagged := True, flag_reason := Some ''spam'',
                                 flagged_by := Some 2, flagged_at := Some 1000700\<rparr>),
             getPublicInfo (sample_message 1 10)], 2)
   \<and> pub_is_deleted (getPublicInfo (sample_message 1 10)) = False
   \<and> pub_is_deleted (getPublicInfo ((sample_message 4 10)\<lparr>is_flagged := True,
          flag_reason := Some ''spam'', flagged_by := Some 2, flagged_at := Some 1000700\<rparr>)) = False
   \<and> Message_getChannelMessages (messages sample_db) 10 1 1
     = Inr [(sample_message 4 10)\<lparr>is_flagged := True, flag_reason := Some ''spam'',
                                   flagged_by := Some 2, flagged_at := Some 1000700\<rparr>]
   \<and> is_deleted ((sample_message 4 10)\<lparr>is_flagged := True, flag_reason := Some ''spam'',
                                   flagged_by := Some 2, flagged_at := Some 1000700\<rparr>) = False"
proof -
  let ?m4 = "(sample_message 4 10)\<lparr>is_flagged := True, flag_reason := Some ''spam'',
               flagged_by := Some 2, flagged_at := Some 1000700\<rparr>"
  let ?ps = "[getPublicInfo ?m4, getPublicInfo (sample_message 1 10)]"
  have h: "getChannelMessages sample_db 10 None None 6 = Inr (?ps, 2)"
    by (rule sample_history)
  have s: "searchMessages (\<lambda>q body. True) sample_db 10 (js ''h'') None None 6 = Inr (?ps, 2)"
    by (rule sample_search)
  have g: "Message_getChannelMessages (messages sample_db) 10 1 1 = Inr [?m4]"
    by (simp add: Message_getChannelMessages_def sample_db_def find_sorted_page_def
        sample_message_def Let_def)
  note w = listings_exclude_soft_deleted
    [of sample_db 10 None None 6 ?ps 2 "\<lambda>q body. True" "js ''h''" ?ps 2 1 1 "[?m4]"]
  have a: "pub_is_deleted (getPublicInfo (sample_message 1 10)) = False"
    using w h by simp
  have b: "pub_is_deleted (getPublicInfo ?m4) = False"
    using w s by simp
  have c: "is_deleted ?m4 = False"
    using w g by simp
  show ?thesis using h s a b g c by blast
qed

subsection \<open>Replies\<close>

lemma fold_max_upper: "a \<le> fold max xs (a::nat)"
  by (induction xs arbitrary: a) (auto intro: order_trans [OF max.cobounded2])

lemma fold_max_mem: "x \<in> set xs \<Longrightarrow> x \<le> fold max xs (a::nat)"
proof (induction xs arbitrary: a)
  case Nil
  then show ?case by simp
next
  case (Cons y ys)
  show ?case
  proof (cases "x = y")
    case True
    have "y \<le> max y a" by simp
    also have "\<dots> \<le> fold max ys (max y a)" by (rule fold_max_upper)
    finally show ?thesis using True by simp
  next
    case False
    then have "x \<in> set ys" using Cons.prems by simp
    then show ?thesis using Cons.IH by simp
  qed
qed

lemma new_object_id_fresh: "findById ms (new_object_id ms) = None"
proof -
  have "msg_id m \<noteq> new_object_id ms" if "m \<in> set ms" for m
  proof -
    have "msg_id m \<le> fold max (map msg_id ms) 0"
      using that by (intro fold_max_mem) simp
    then show ?thesis by (simp add: new_object_id_def)
  qed
  then show ?thesis
    by (auto simp: findById_def find_None_iff)
qed

text \<open>
  The service \<open>sendMessage\<close> and the mounted route both refuse a reply to a message that
  is not stored or is of another channel, once the call has got as far as the reply check,
  and store nothing.
\<close>

lemma sendMessage_invalid_reply_fails:
  assumes "findById (messages d) r = None
             \<or> (\<exists>rm. findById (messages d) r = Some rm \<and> channel_id rm \<noteq> c)"
  shows "\<exists>e. sendMessage d now c u body (ReplyId r) mt = (Inl e, d)"
  using assms
  by (auto simp: sendMessage_def split: option.splits)

lemma sendMessage_invalid_reply_error:
  assumes "findById (messages d) r = None
             \<or> (\<exists>rm. findById (messages d) r = Some rm \<and> channel_id rm \<noteq> c)"
    and "findChannelById (channels d) c = Some ch"
    and "is_private ch \<longrightarrow> isMember (members d) c u"
  shows "sendMessage d now c u body (ReplyId r) mt = (Inl InvalidReplyMessage, d)"
  using assms
  by (auto simp: sendMessage_def split: option.splits)

lemma sendMessage_same_channel_passes:
  assumes "findById (messages d) r = Some rm" and "channel_id rm = c"
  shows "fst (sendMessage d now c u body (ReplyId r) mt) \<noteq> Inl InvalidReplyMessage"
  using assms
  by (auto simp: sendMessage_def Let_def save_def split: option.splits)

lemma sendMessage_same_channel_creates:
  assumes "findById (messages d) r = Some rm" and "channel_id rm = c"
    and "findChannelById (channels d) c = Some ch"
    and "is_private ch \<longrightarrow> isMember (members d) c u"
    and "validate_content (trim body)"
    and "case mt of None \<Rightarrow> True | Some t \<Rightarrow> t \<in> set message_types"
  shows "\<exists>m. fst (sendMessage d now c u body (ReplyId r) mt) = Inr m
            \<and> reply_to m = Some r \<and> channel_id m = c \<and> user_id m = u
            \<and> messages (snd (sendMessage d now c u body (ReplyId r) mt)) = messages d @ [m]"
proof -
  have t: "(case mt of None \<Rightarrow> ''text'' | Some t \<Rightarrow> t) \<in> set message_types"
    using assms(6) by (cases mt) (simp_all add: message_types_def)
  show ?thesis
    using assms(1-5) t new_object_id_fresh [of "messages d"]
    by (auto simp: sendMessage_def Let_def save_def reply_to_cast_def)
qed

lemma sendMessage_empty_reply_stores_nothing:
  "\<exists>e. sendMessage d now c u body EmptyString mt = (Inl e, d)"
  by (auto simp: sendMessage_def Let_def split: option.splits)

lemma route_send_message_invalid_reply_error:
  assumes "findById (messages d) r = None
             \<or> (\<exists>rm. findById (messages d) r = Some rm \<and> channel_id rm \<noteq> c)"
    and "findChannelById (channels d) c = Some ch"
    and "isMember (members d) c (usr_id reqUser)"
  shows "route_send_message d now reqUser c body (ReplyId r) mt = (Inl InvalidReplyMessage, d)"
  using assms
  by (auto simp: route_send_message_def split: option.splits)

subsection \<open>Deleting and restoring\<close>

text \<open>
  The three delete paths.  The streaming handler admits the author, the site-wide
  moderators and admins, and the moderators and admins of the message's stored channel,
  and refuses everyone else.  The service leaves the site-wide role out, and the mounted
  route leaves the channel role out.
\<close>

lemma deleteMessage_forbidden:
  assumes "findById (messages d) mid = Some m" and "user_id m \<noteq> u"
    and "\<not> (findChannelById (channels d) (channel_id m) \<noteq> None
             \<and> hasRole (members d) (channel_id m) u Moderator)"
  shows "deleteMessage d now mid u = (Inl DeleteForbidden, d)"
  using assms by (auto simp: deleteMessage_def Let_def)

lemma socket_delete_message_allowed_iff:
  assumes "findById (messages d) mid = Some m" and "findUserById (users d) u = Some usr"
    and "findChannelById (channels d) (channel_id m) \<noteq> None"
  shows "fst (socket_delete_message d now u mid) = Inr True
           \<longleftrightarrow> user_id m = u \<or> isSiteModerator usr
               \<or> hasRole (members d) (channel_id m) u Moderator"
    and "\<not> (user_id m = u \<or> isSiteModerator usr
             \<or> hasRole (members d) (channel_id m) u Moderator)
           \<Longrightarrow> socket_delete_message d now u mid = (Inl (Service DeleteForbidden), d)"
  using assms by (auto simp: socket_delete_message_def Let_def)

lemma route_delete_message_allowed_iff:
  assumes "findById (messages d) mid = Some m"
  shows "fst (route_delete_message d now reqUser mid) = Inr True
           \<longleftrightarrow> user_id m = usr_id reqUser \<or> usr_role reqUser = RoleModerator
               \<or> usr_role reqUser = RoleAdmin"
    and "\<not> (user_id m = usr_id reqUser \<or> usr_role reqUser = RoleModerator
             \<or> usr_role reqUser = RoleAdmin)
           \<Longrightarrow> route_delete_message d now reqUser mid = (Inl NotOwnMessage, d)"
  using assms by (auto simp: route_delete_message_def Let_def)

lemma restoreMessage_deleted:
  assumes "findById (messages d) mid = Some m" and "is_deleted m"
  shows "fst (restoreMessage d now mid u)
           = Inr (m\<lparr>is_deleted := False, deleted_by := None, deleted_at := None,
                     updated_at := now\<rparr>)"
    and "findById (messages (snd (restoreMessage d now mid u))) mid
           = Some (m\<lparr>is_deleted := False, deleted_by := None, deleted_at := None,
                      updated_at := now\<rparr>)"
proof -
  let ?m' = "m\<lparr>is_deleted := False, deleted_by := None, deleted_at := None\<rparr>"
  have id: "msg_id ?m' = mid"
    using assms(1) by (simp add: findById_msg_id)
  have found: "findById (messages d) (msg_id ?m') = Some m"
    using assms(1) id by simp
  have r: "restoreMessage d now mid u = save d now ?m'"
    using assms by (simp add: restoreMessage_def restore_def)
  show "fst (restoreMessage d now mid u)
           = Inr (m\<lparr>is_deleted := False, deleted_by := None, deleted_at := None,
                     updated_at := now\<rparr>)"
    using save_existing(1) [OF found, of now] by (simp add: r)
  show "findById (messages (snd (restoreMessage d now mid u))) mid
           = Some (m\<lparr>is_deleted := False, deleted_by := None, deleted_at := None,
                      updated_at := now\<rparr>)"
    using save_existing(2) [OF found, of now] id by (simp add: r)
qed

lemma restoreMessage_reads_no_actor:
  "restoreMessage d now mid u = restoreMessage d now mid u'"
  by (simp add: restoreMessage_def)

text \<open>
  Claim C2.  Delete is to succeed exactly for the author, the moderators and admins of the
  message's channel and the site-wide moderators and admins.  User 2 of the sample store
  is a moderator of channel 10 and a plain user of the site.  The streaming handler
  \<open>delete_message\<close> and the service let user 2 delete message 1 of user 1; the mounted
  route \<open>DELETE /:id\<close> answers that one can only delete one's own messages.
\<close>

theorem route_delete_refuses_channel_moderator:
  "findUserById (users sample_db) 2 = Some \<lparr>usr_id = 2, usr_role = RoleUser\<rparr>
   \<and> findById (messages sample_db) 1 = Some (sample_message 1 10)
   \<and> hasRole (members sample_db) 10 2 Moderator
   \<and> route_delete_message sample_db 2000000 \<lparr>usr_id = 2, usr_role = RoleUser\<rparr> 1
        = (Inl NotOwnMessage, sample_db)
   \<and> fst (socket_delete_message sample_db 2000000 2 1) = Inr True
   \<and> fst (deleteMessage sample_db 2000000 1 2) = Inr True"
  by (simp add: sample_db_def sample_message_def findById_def findUserById_def
      findChannelById_def hasRole_def findOneActive_def roleHierarchy_def isSiteModerator_def
      route_delete_message_def socket_delete_message_def deleteMessage_def softDelete_def
      save_def Let_def)

text \<open>
  The service has two more gaps of the same kind.  It refuses the site moderator 5 the
  deletion that the handler and the route grant, its \<open>isModerator\<close> being the constant
  \<open>false\<close>; and \<open>restoreMessage\<close> takes the actor and never reads it, so that user 6, who
  is refused the deletion of message 3, restores it.
\<close>

lemma deleteMessage_ignores_site_role:
  "findUserById (users sample_db) 5 = Some \<lparr>usr_id = 5, usr_role = RoleModerator\<rparr>
   \<and> deleteMessage sample_db 2000000 1 5 = (Inl DeleteForbidden, sample_db)
   \<and> fst (socket_delete_message sample_db 2000000 5 1) = Inr True
   \<and> fst (route_delete_message sample_db 2000000 \<lparr>usr_id = 5, usr_role = RoleModerator\<rparr> 1)
        = Inr True"
  by (simp add: sample_db_def sample_message_def findById_def findUserById_def
      findChannelById_def hasRole_def findOneActive_def isSiteModerator_def
      deleteMessage_def socket_delete_message_def route_delete_message_def softDelete_def
      save_def Let_def)

lemma restoreMessage_unguarded:
  "deleteMessage sample_db 2000000 3 6 = (Inl DeleteForbidden, sample_db)
   \<and> fst (restoreMessage sample_db 2000000 3 6)
        = Inr ((sample_message 3 10)\<lparr>is_deleted := False, deleted_by := None,
                                        deleted_at := None, updated_at := 2000000\<rparr>)"
  by (simp add: sample_db_def sample_message_def findById_def findUserById_def
      findChannelById_def hasRole_def findOneActive_def isSiteModerator_def
      deleteMessage_def restoreMessage_def restore_def save_def Let_def)

subsection \<open>Unflagging\<close>







subsection \<open>Length and repetition filter\<close>

lemma takeWhile_eq_replicate:
  "takeWhile (\<lambda>x. x = c) xs = replicate (length (takeWhile (\<lambda>x. x = c) xs)) c"
  by (induction xs) auto

lemma takeWhile_replicate_append:
  "n \<le> length (takeWhile (\<lambda>x. x = c) (replicate n c @ ys))"
  by (induction n) auto

lemma repeatedChars_test_iff:
  "repeatedChars_test s \<longleftrightarrow>
     (\<exists>pre c post. s = pre @ replicate 11 c @ post \<and> \<not> isLineTerminator c)"
proof (induction s)
  case Nil
  then show ?case by simp
next
  case (Cons a s)
  show ?case
  proof
    assume "repeatedChars_test (a # s)"
    then consider (here) "\<not> isLineTerminator a" "10 \<le> length (takeWhile (\<lambda>x. x = a) s)"
      | (later) "repeatedChars_test s"
      by auto
    then show "\<exists>pre c post. a # s = pre @ replicate 11 c @ post \<and> \<not> isLineTerminator c"
    proof cases
      case here
      let ?k = "length (takeWhile (\<lambda>x. x = a) s)"
      have "s = replicate ?k a @ dropWhile (\<lambda>x. x = a) s"
        using takeWhile_eq_replicate [of a s] takeWhile_dropWhile_id [of "\<lambda>x. x = a" s]
        by metis
      moreover have "replicate ?k a = replicate 10 a @ replicate (?k - 10) a"
        using here(2) by (simp add: replicate_add [symmetric])
      ultimately have "a # s = [] @ replicate 11 a @ (replicate (?k - 10) a @ dropWhile (\<lambda>x. x = a) s)"
        by (simp add: numeral_eq_Suc)
      then show ?thesis using here(1) by blast
    next
      case later
      then obtain pre c post where "s = pre @ replicate 11 c @ post" "\<not> isLineTerminator c"
        using Cons.IH by blast
      then have "a # s = (a # pre) @ replicate 11 c @ post \<and> \<not> isLineTerminator c"
        by simp
      then show ?thesis by blast
    qed
  next
    assume "\<exists>pre c post. a # s = pre @ replicate 11 c @ post \<and> \<not> isLineTerminator c"
    then obtain pre c post where eq: "a # s = pre @ replicate 11 c @ post"
        and nl: "\<not> isLineTerminator c"
      by blast
    show "repeatedChars_test (a # s)"
    proof (cases pre)
      case Nil
      then have "a = c" and "s = replicate 10 c @ post"
        using eq by (simp_all add: numeral_eq_Suc)
      then show ?thesis
        using nl takeWhile_replicate_append [of 10 c post] by simp
    next
      case (Cons p pre')
      then have "s = pre' @ replicate 11 c @ post"
        using eq by simp
      then have "repeatedChars_test s"
        using nl Cons.IH by blast
      then show ?thesis by simp
    qed
  qed
qed

lemma error_texts_differ: "too_long_error \<noteq> repeated_chars_error"
  by (simp add: too_long_error_def repeated_chars_error_def)

lemma long_run_has_eleven:
  assumes "11 \<le> n"
  shows "pre @ replicate n c @ post = pre @ replicate 11 c @ (replicate (n - 11) c @ post)"
proof -
  have "replicate n c = replicate 11 c @ replicate (n - 11) c"
    using assms by (simp add: replicate_add [symmetric])
  then show ?thesis by simp
qed

text \<open>
  Claim C7, as the filter has it.  \<open>contentLengthValidation\<close> rejects a body of more than
  2000 code units with the too-long text, and a body of at most 2000 code units that holds
  eleven or more copies in a row of one code unit other than a line terminator with the
  repeated-characters text; it passes every other body, a run of line terminators or of
  surrogate pairs among them.  The two texts differ.
\<close>

theorem contentLengthValidation_rejects:
  "(2000 < length s \<longrightarrow> contentLengthValidation s = Rejected 400 too_long_error)
   \<and> (length s \<le> 2000
        \<and> (\<exists>pre c n post. 11 \<le> n \<and> s = pre @ replicate n c @ post \<and> \<not> isLineTerminator c)
      \<longrightarrow> contentLengthValidation s = Rejected 400 repeated_chars_error)
   \<and> (contentLengthValidation s = Next
      \<longleftrightarrow> length s \<le> 2000
          \<and> \<not> (\<exists>pre c n post. 11 \<le> n \<and> s = pre @ replicate n c @ post
                  \<and> \<not> isLineTerminator c))
   \<and> too_long_error \<noteq> repeated_chars_error"
proof -
  have run: "repeatedChars_test s \<longleftrightarrow>
      (\<exists>pre c n post. 11 \<le> n \<and> s = pre @ replicate n c @ post \<and> \<not> isLineTerminator c)"
  proof
    assume "repeatedChars_test s"
    then obtain pre c post where "s = pre @ replicate 11 c @ post" "\<not> isLineTerminator c"
      using repeatedChars_test_iff by blast
    then have "11 \<le> (11::nat) \<and> s = pre @ replicate 11 c @ post \<and> \<not> isLineTerminator c"
      by simp
    then show "\<exists>pre c n post. 11 \<le> n \<and> s = pre @ replicate n c @ post \<and> \<not> isLineTerminator c"
      by blast
  next
    assume "\<exists>pre c n post. 11 \<le> n \<and> s = pre @ replicate n c @ post \<and> \<not> isLineTerminator c"
    then obtain pre c n post where n: "11 \<le> n" and s: "s = pre @ replicate n c @ post"
        and nl: "\<not> isLineTerminator c"
      by blast
    have "s = pre @ replicate 11 c @ (replicate (n - 11) c @ post)"
      using s long_run_has_eleven [OF n] by simp
    then show "repeatedChars_test s"
      using nl repeatedChars_test_iff by blast
  qed
  have long: "2000 < length s \<longrightarrow> contentLengthValidation s = Rejected 400 too_long_error"
    by (auto simp: contentLengthValidation_def)
  have rep: "length s \<le> 2000 \<and> repeatedChars_test s
      \<longrightarrow> contentLengthValidation s = Rejected 400 repeated_chars_error"
    by (auto simp: contentLengthValidation_def)
  have nxt: "contentLengthValidation s = Next \<longleftrightarrow> length s \<le> 2000 \<and> \<not> repeatedChars_test s"
    by (auto simp: contentLengthValidation_def)
  show ?thesis
    using long rep nxt error_texts_differ unfolding run by blast
qed

text \<open>A body of 2001 letters, a body of eleven letters \<open>a\<close>, and \<open>hello\<close>.\<close>

theorem contentLengthValidation_rejects_witness:
  "2000 < length (replicate 2001 (0x61 :: code_unit))
   \<and> contentLengthValidation (replicate 2001 0x61) = Rejected 400 too_long_error
   \<and> length (js ''aaaaaaaaaaa'') \<le> 2000
   \<and> js ''aaaaaaaaaaa'' = [] @ replicate 11 0x61 @ []
   \<and> contentLengthValidation (js ''aaaaaaaaaaa'') = Rejected 400 repeated_chars_error
   \<and> contentLengthValidation (js ''hello'') = Next"
proof -
  have l: "2000 < length (replicate 2001 (0x61 :: code_unit))"
    by simp
  have a: "contentLengthValidation (replicate 2001 0x61) = Rejected 400 too_long_error"
    using contentLengthValidation_rejects [of "replicate 2001 0x61"] l by blast
  have s: "length (js ''aaaaaaaaaaa'') \<le> 2000"
    by (simp add: js_def)
  have e: "js ''aaaaaaaaaaa'' = [] @ replicate 11 0x61 @ []"
    by (simp add: js_def numeral_eq_Suc)
  have n: "\<not> isLineTerminator 0x61"
    by (simp add: isLineTerminator_def)
  have "\<exists>pre c n post. 11 \<le> n \<and> js ''aaaaaaaaaaa'' = pre @ replicate n c @ post
          \<and> \<not> isLineTerminator c"
    using e n by (intro exI [of _ "[]"] exI [of _ "0x61"] exI [of _ "11"]) simp
  then have b: "contentLengthValidation (js ''aaaaaaaaaaa'') = Rejected 400 repeated_chars_error"
    using contentLengthValidation_rejects [of "js ''aaaaaaaaaaa''"] s by blast
  have h: "contentLengthValidation (js ''hello'') = Next"
    by (simp add: contentLengthValidation_def js_def isLineTerminator_def)
  show ?thesis using l a s e b h by blast
qed

lemma replicate_eleven: "replicate 11 x = [x, x, x, x, x, x, x, x, x, x, x]"
  by (simp add: numeral_eq_Suc)

text \<open>
  Against claim C7 as first stated, for every repeated character: the letter \<open>a\<close>,
  eleven line feeds and the letter \<open>b\<close> pass the filter, since \<open>.\<close> matches no line
  terminator; and so do eleven copies of the character U+1F600, which is the surrogate pair
  D83D DE00 and so never the same code unit twice in a row.
\<close>

theorem line_terminator_run_counterexample:
  "contentLengthValidation ([0x61] @ replicate 11 0x0A @ [0x62]) = Next
   \<and> length ([0x61] @ replicate 11 (0x0A :: code_unit) @ [0x62]) = 13
   \<and> contentLengthValidation (concat (replicate 11 [0xD83D, 0xDE00])) = Next
   \<and> length (concat (replicate 11 [0xD83D, 0xDE00 :: code_unit])) = 22"
  by (simp add: contentLengthValidation_def isLineTerminator_def replicate_eleven)

subsection \<open>Connections\<close>

lemma run_connections:
  assumes "findUserById (users d) u \<noteq> None"
  shows "run (map (\<lambda>s. Connection s u) ss) (d, p) = (d, fold (\<lambda>s. on_connection d s u) ss p)"
proof -
  have h: "handle (Connection s u) (d, q) = (d, on_connection d s u q)" for s q
    using assms by auto
  show ?thesis
    unfolding run_def by (induction ss arbitrary: p) (simp_all only: list.map fold_simps h)
qed

lemma on_connection_maps:
  "sockets (on_connection d s u p) = (sockets p)(s \<mapsto> u)"
  "connectedUsers (on_connection d s u p) = (connectedUsers p)(u \<mapsto> s)"
  by (simp_all add: on_connection_def Let_def)

lemma connections_registry:
  assumes "ss \<noteq> []"
  shows "connectedUsers (fold (\<lambda>s. on_connection d s u) ss p) u = Some (last ss)"
  using assms by (induction ss rule: rev_induct) (simp_all add: on_connection_maps)

lemma connections_stay_open:
  "s \<in> set ss \<Longrightarrow> sockets (fold (\<lambda>s. on_connection d s u) ss p) s = Some u"
  by (induction ss rule: rev_induct) (auto simp: on_connection_maps)

lemma connections_close_nothing:
  "sockets p s = Some x \<Longrightarrow> sockets (fold (\<lambda>s. on_connection d s u) ss p) s \<noteq> None"
  by (induction ss rule: rev_induct) (auto simp: on_connection_maps)

text \<open>
  Claim C4, as the handler has it.  After any non-empty sequence of connections of one
  stored user (the handshake admits no other), whatever the state before,
  \<open>connectedUsers\<close> binds the user to the latest socket and to no other.  The handler
  closes nothing: every socket of the sequence is still open, and so is every connection
  that was open before.
\<close>

theorem connection_registry_latest:
  assumes "findUserById (users d) u \<noteq> None" and "ss \<noteq> []"
  shows "connectedUsers (snd (run (map (\<lambda>s. Connection s u) ss) (d, p))) u = Some (last ss)
       \<and> (\<forall>s \<in> set ss. sockets (snd (run (map (\<lambda>s. Connection s u) ss) (d, p))) s = Some u)
       \<and> (\<forall>s x. sockets p s = Some x
             \<longrightarrow> sockets (snd (run (map (\<lambda>s. Connection s u) ss) (d, p))) s \<noteq> None)"
  using connections_registry [OF assms(2)] connections_stay_open connections_close_nothing
  by (simp add: run_connections [OF assms(1)])

text \<open>
  User 2 of the sample store is connected on socket 9 when user 1 connects three times,
  on the sockets 1, 2 and 3.
\<close>

theorem connection_registry_latest_witness:
  "findUserById (users sample_db) 1 = Some \<lparr>usr_id = 1, usr_role = RoleUser\<rparr>
   \<and> findUserById (users sample_db) 2 = Some \<lparr>usr_id = 2, usr_role = RoleUser\<rparr>
   \<and> [1, 2, 3] \<noteq> ([] :: socket_id list)
   \<and> sockets (snd (run [Connection 9 2] (sample_db, no_presence))) 9 = Some 2
   \<and> connectedUsers
        (snd (run (map (\<lambda>s. Connection s 1) [1, 2, 3])
                (sample_db, snd (run [Connection 9 2] (sample_db, no_presence))))) 1
        = Some 3
   \<and> sockets
        (snd (run (map (\<lambda>s. Connection s 1) [1, 2, 3])
                (sample_db, snd (run [Connection 9 2] (sample_db, no_presence))))) 1 = Some 1
   \<and> sockets
        (snd (run (map (\<lambda>s. Connection s 1) [1, 2, 3])
                (sample_db, snd (run [Connection 9 2] (sample_db, no_presence))))) 2 = Some 1
   \<and> sockets
        (snd (run (map (\<lambda>s. Connection s 1) [1, 2, 3])
                (sample_db, snd (run [Connection 9 2] (sample_db, no_presence))))) 3 = Some 1
   \<and> sockets
        (snd (run (map (\<lambda>s. Connection s 1) [1, 2, 3])
                (sample_db, snd (run [Connection 9 2] (sample_db, no_presence))))) 9 \<noteq> None"
proof -
  define p0 where "p0 = snd (run [Connection 9 2] (sample_db, no_presence))"
  define u1 :: object_id where "u1 = 1"
  have st1: "findUserById (users sample_db) 1 = Some \<lparr>usr_id = 1, usr_role = RoleUser\<rparr>"
    by (simp add: sample_db_def findUserById_def)
  have st2: "findUserById (users sample_db) 2 = Some \<lparr>usr_id = 2, usr_role = RoleUser\<rparr>"
    by (simp add: sample_db_def findUserById_def)
  have st: "findUserById (users sample_db) u1 \<noteq> None"
    using st1 by (simp add: u1_def)
  have ne: "[1, 2, 3] \<noteq> ([] :: socket_id list)"
    by simp
  have p9: "sockets p0 9 = Some 2"
    using st2 by (simp add: p0_def run_def on_connection_def Let_def)
  note w = connection_registry_latest [OF st ne, of p0]
  have l: "last [1, 2, 3 :: socket_id] = 3"
    by simp
  have a: "connectedUsers
        (snd (run (map (\<lambda>s. Connection s u1) [1, 2, 3]) (sample_db, p0))) u1 = Some 3"
    using w l by simp
  have b: "\<forall>s \<in> set [1, 2, 3 :: socket_id].
      sockets (snd (run (map (\<lambda>s. Connection s u1) [1, 2, 3]) (sample_db, p0))) s = Some u1"
    using w by blast
  have c: "sockets (snd (run (map (\<lambda>s. Connection s u1) [1, 2, 3]) (sample_db, p0))) 9
      \<noteq> None"
    using w p9 by blast
  have b1: "sockets (snd (run (map (\<lambda>s. Connection s u1) [1, 2, 3]) (sample_db, p0))) 1
      = Some u1"
    and b2: "sockets (snd (run (map (\<lambda>s. Connection s u1) [1, 2, 3]) (sample_db, p0))) 2
      = Some u1"
    and b3: "sockets (snd (run (map (\<lambda>s. Connection s u1) [1, 2, 3]) (sample_db, p0))) 3
      = Some u1"
    using b by simp_all
  show ?thesis
    using st1 st2 ne p9 a b1 b2 b3 c unfolding p0_def u1_def by blast
qed

text \<open>
  Against claim C4 as first stated, with one live session and every replaced connection
  closed: after user 1 of the sample store has connected on socket 1 and then on socket
  2, both connections are open for user 1.
\<close>

theorem replaced_connection_open_counterexample:
  "findUserById (users sample_db) 1 = Some \<lparr>usr_id = 1, usr_role = RoleUser\<rparr>
   \<and> sockets (snd (run [Connection 1 1, Connection 2 1] (sample_db, no_presence))) 1 = Some 1
   \<and> sockets (snd (run [Connection 1 1, Connection 2 1] (sample_db, no_presence))) 2 = Some 1
   \<and> connectedUsers (snd (run [Connection 1 1, Connection 2 1] (sample_db, no_presence))) 1
       = Some 2"
  by (simp add: run_def on_connection_def no_presence_def Let_def sample_db_def
      findUserById_def)

text \<open>
  When the replaced connection later closes, its \<open>disconnect\<close> handler deletes the
  user's entry, which by then belongs to the open connection.
\<close>

lemma stale_disconnect_unregisters_user:
  "connectedUsers
     (snd (run [Connection 1 1, Connection 2 1, Disconnect 1] (sample_db, no_presence))) 1
     = None
   \<and> sockets
       (snd (run [Connection 1 1, Connection 2 1, Disconnect 1] (sample_db, no_presence))) 2
     = Some 1"
  by (simp add: run_def on_connection_def on_disconnect_def no_presence_def Let_def
      sample_db_def findUserById_def findChannelById_def)

subsection \<open>Typing entries\<close>

text \<open>
  \<open>typing_stop\<close>, a stored \<open>new_message\<close> and \<open>disconnect\<close> (for the channels still
  listed for the user) remove the user's typing entry, and \<open>typing_start\<close> adds none for
  a channel the user is not subscribed to.  \<open>leave_channel\<close> never touches the typing
  sets, so leaving a channel while typing in it breaks the invariant.
\<close>

lemma stop_typing_removes:
  "\<not> (\<exists>us. stop_typing c u typing c = Some us \<and> u \<in> us)"
  by (auto simp: stop_typing_def split: option.splits if_splits)

lemma on_typing_stop_removes:
  assumes "sockets p s = Some u"
  shows "\<not> (\<exists>us. typingUsers (on_typing_stop s c p) c = Some us \<and> u \<in> us)"
  using assms stop_typing_removes [of c u "typingUsers p"]
  by (simp add: on_typing_stop_def)

lemma on_disconnect_removes:
  assumes "sockets p s = Some u" and "userChannels p u = Some cs" and "c \<in> cs"
  shows "\<not> (\<exists>us. typingUsers (on_disconnect s p) c = Some us \<and> u \<in> us)"
  using assms stop_typing_removes [of c u "typingUsers p"]
  by (simp add: on_disconnect_def Let_def)

lemma on_new_message_removes:
  assumes "sockets p s = Some u" and "findChannelById (channels d) c \<noteq> None"
    and "isMember (members d) c u" and "validate_content (trim body)"
    and "r \<noteq> EmptyString"
  shows "\<not> (\<exists>us. typingUsers (snd (on_new_message now s c body r (d, p))) c = Some us
              \<and> u \<in> us)"
  using assms stop_typing_removes [of c u "typingUsers p"]
  by (auto simp: on_new_message_def Let_def)

lemma on_typing_start_guarded:
  assumes "sockets p s = Some u" and "userChannels p u = Some cs" and "c \<notin> cs"
  shows "on_typing_start s c p = p"
  using assms by (simp add: on_typing_start_def)

lemma on_leave_channel_typingUsers:
  "typingUsers (on_leave_channel s c p) = typingUsers p"
  by (simp add: on_leave_channel_def Let_def split: option.splits)

lemma on_leave_channel_breaks_invariant:
  assumes "sockets p s = Some u" and "userChannels p u = Some cs"
    and "typingUsers p c = Some us" and "u \<in> us"
  shows "\<not> typing_subscribed (on_leave_channel s c p)"
proof -
  have "typingUsers (on_leave_channel s c p) c = Some us"
    using assms(3) by (simp add: on_leave_channel_typingUsers)
  moreover have "userChannels (on_leave_channel s c p) u = Some (cs - {c})"
    using assms(1,2) by (simp add: on_leave_channel_def Let_def)
  ultimately show ?thesis
    using assms(4) unfolding typing_subscribed_def by fastforce
qed

text \<open>
  Claim C6.  A user in a channel's typing set is to hold a subscription to the channel.
  User 1 of the sample store connects on socket 1, which subscribes the user to channel
  10, starts typing in channel 10 and leaves it: the user's subscriptions are empty, the
  typing set of channel 10 still holds the user, and it still does after the disconnect,
  which only clears the channels left in \<open>userChannels\<close>.
\<close>

theorem leave_channel_keeps_typing_entry:
  "userChannels (snd (run [Connection 1 1, TypingStart 1 10] (sample_db, no_presence))) 1
     = Some {10}
   \<and> typingUsers (snd (run [Connection 1 1, TypingStart 1 10] (sample_db, no_presence))) 10
     = Some {1}
   \<and> userChannels
        (snd (run [Connection 1 1, TypingStart 1 10, LeaveChannel 1 10] (sample_db, no_presence))) 1
     = Some {}
   \<and> typingUsers
        (snd (run [Connection 1 1, TypingStart 1 10, LeaveChannel 1 10] (sample_db, no_presence))) 10
     = Some {1}
   \<and> typingUsers
        (snd (run [Connection 1 1, TypingStart 1 10, LeaveChannel 1 10, Disconnect 1]
                (sample_db, no_presence))) 10
     = Some {1}"
  by (simp add: run_def on_connection_def on_typing_start_def on_leave_channel_def
      on_disconnect_def no_presence_def sample_db_def Let_def findUserById_def
      findChannelById_def)

lemma leave_channel_breaks_typing_subscribed:
  "typing_subscribed (snd (run [Connection 1 1, TypingStart 1 10] (sample_db, no_presence)))
   \<and> \<not> typing_subscribed
        (snd (run [Connection 1 1, TypingStart 1 10, LeaveChannel 1 10] (sample_db, no_presence)))"
proof -
  define q where "q = snd (run [Connection 1 1, TypingStart 1 10] (sample_db, no_presence))"
  have l: "1 \<in> listening q"
    by (simp add: q_def run_def on_connection_def on_typing_start_def no_presence_def
        sample_db_def Let_def findUserById_def findChannelById_def)
  have run3: "snd (run [Connection 1 1, TypingStart 1 10, LeaveChannel 1 10] (sample_db, no_presence))
      = on_leave_channel 1 10 q"
  proof -
    have "run [Connection 1 1, TypingStart 1 10, LeaveChannel 1 10] (sample_db, no_presence)
        = handle (LeaveChannel 1 10) (run [Connection 1 1, TypingStart 1 10] (sample_db, no_presence))"
      by (simp add: run_def)
    also have "\<dots> = handle (LeaveChannel 1 10)
        (fst (run [Connection 1 1, TypingStart 1 10] (sample_db, no_presence)), q)"
      by (simp add: q_def)
    finally show ?thesis using l by simp
  qed
  have s: "sockets q 1 = Some 1"
    by (simp add: q_def run_def on_connection_def on_typing_start_def no_presence_def
        sample_db_def Let_def findUserById_def findChannelById_def)
  have u: "userChannels q = [1 \<mapsto> {10}]"
    by (simp add: q_def run_def on_connection_def on_typing_start_def no_presence_def
        sample_db_def Let_def findUserById_def findChannelById_def)
  have t: "typingUsers q = [10 \<mapsto> {1}]"
    by (simp add: q_def run_def on_connection_def on_typing_start_def no_presence_def
        sample_db_def Let_def findUserById_def findChannelById_def)
  have before: "typing_subscribed q"
    unfolding typing_subscribed_def t u by (auto split: if_splits)
  have after: "\<not> typing_subscribed (on_leave_channel 1 10 q)"
  proof (rule on_leave_channel_breaks_invariant [OF s])
    show "userChannels q 1 = Some {10}" unfolding u by simp
    show "typingUsers q 10 = Some {1}" unfolding t by simp
    show "1 \<in> {1 :: object_id}" by simp
  qed
  show ?thesis using before after run3 unfolding q_def by simp
qed

subsection \<open>The streaming send\<close>

text \<open>
  Claim C5.  A send whose \<open>replyTo\<close> does not resolve to a message of the target channel
  is to fail with the invalid-reference error and create nothing.  User 1 of the sample
  store, an active member of channel 10 and connected on socket 1, sends \<open>re\<close> to channel
  10 in reply to message 2, which is a message of channel 20.  The HTTP route and the
  service refuse that send with "Invalid reply message" and leave the store as it is;
  the streaming handler \<open>new_message\<close> has no reply check and stores the message, as a
  fifth message, of channel 10, replying to message 2.
\<close>

theorem new_message_reply_unchecked:
  "findUserById (users sample_db) 1 = Some \<lparr>usr_id = 1, usr_role = RoleUser\<rparr>
   \<and> isMember (members sample_db) 10 1
   \<and> map channel_id (messages sample_db) = [10, 20, 10, 10]
   \<and> map msg_id (messages sample_db) = [1, 2, 3, 4]
   \<and> route_send_message sample_db 1500000 \<lparr>usr_id = 1, usr_role = RoleUser\<rparr> 10 (js ''re'')
        (ReplyId 2) None
       = (Inl InvalidReplyMessage, sample_db)
   \<and> sendMessage sample_db 1500000 10 1 (js ''re'') (ReplyId 2) None
       = (Inl InvalidReplyMessage, sample_db)
   \<and> map reply_to
       (messages (fst (run [Connection 1 1, NewMessage 1500000 1 10 (js ''re'') (ReplyId 2)]
                         (sample_db, no_presence))))
       = [None, None, None, None, Some 2]
   \<and> map channel_id
       (messages (fst (run [Connection 1 1, NewMessage 1500000 1 10 (js ''re'') (ReplyId 2)]
                         (sample_db, no_presence))))
       = [10, 20, 10, 10, 10]"
proof -
  have u: "findUserById (users sample_db) 1 = Some \<lparr>usr_id = 1, usr_role = RoleUser\<rparr>"
    by (simp add: sample_db_def findUserById_def)
  have m: "isMember (members sample_db) 10 1"
    by (simp add: sample_db_def isMember_def findOneActive_def)
  have c: "map channel_id (messages sample_db) = [10, 20, 10, 10]"
    by (simp add: sample_db_def sample_message_def)
  have i: "map msg_id (messages sample_db) = [1, 2, 3, 4]"
    by (simp add: sample_db_def sample_message_def)
  have r: "route_send_message sample_db 1500000 \<lparr>usr_id = 1, usr_role = RoleUser\<rparr> 10
        (js ''re'') (ReplyId 2) None
       = (Inl InvalidReplyMessage, sample_db)"
    by (simp add: route_send_message_def sample_db_def sample_message_def isMember_def
        findOneActive_def findChannelById_def findById_def Let_def)
  have s: "sendMessage sample_db 1500000 10 1 (js ''re'') (ReplyId 2) None
       = (Inl InvalidReplyMessage, sample_db)"
    by (simp add: sendMessage_def sample_db_def sample_message_def isMember_def
        findOneActive_def findChannelById_def findById_def Let_def)
  have w: "map reply_to
       (messages (fst (run [Connection 1 1, NewMessage 1500000 1 10 (js ''re'') (ReplyId 2)]
                         (sample_db, no_presence))))
       = [None, None, None, None, Some 2]
   \<and> map channel_id
       (messages (fst (run [Connection 1 1, NewMessage 1500000 1 10 (js ''re'') (ReplyId 2)]
                         (sample_db, no_presence))))
       = [10, 20, 10, 10, 10]"
    by (simp add: run_def on_connection_def on_new_message_def no_presence_def sample_db_def
        sample_message_def Let_def isMember_def findOneActive_def findChannelById_def
        findUserById_def findById_def new_object_id_def save_def trim_def js_def
        isWhiteSpace_def isLineTerminator_def validate_content_def reply_to_cast_def)
  show ?thesis using u m c i r s w by blast
qed

end
